theory Spec2Isabelle
  imports Main
begin

section \<open>The Go library functions the exporter calls\<close>

text \<open>
  Go strings are byte sequences; \<^typ>\<open>string\<close> is a list of 8-bit characters, so the
  models below work on exactly the bytes the program sees.
\<close>

subsection \<open>\<^verbatim>\<open>strings.Cut\<close>, \<^verbatim>\<open>strings.TrimSuffix\<close>, \<^verbatim>\<open>path.Base\<close>\<close>

definition Cut :: "string \<Rightarrow> char \<Rightarrow> string \<times> string \<times> bool" where
  \<comment> \<open>\<^verbatim>\<open>strings.Cut(s, sep)\<close> for a one-byte separator: the text before the first
      \<open>sep\<close>, the text after it, and whether \<open>sep\<close> was found; \<open>(s, "", false)\<close> when
      it was not.\<close>
  "Cut s sep =
     (takeWhile (\<lambda>c. c \<noteq> sep) s, drop 1 (dropWhile (\<lambda>c. c \<noteq> sep) s), sep \<in> set s)"

definition TrimSuffix :: "string \<Rightarrow> string \<Rightarrow> string" where
  \<comment> \<open>\<^verbatim>\<open>strings.TrimSuffix(s, suffix)\<close>: one trailing occurrence is removed.\<close>
  "TrimSuffix s suffix =
     (if length suffix \<le> length s \<and> drop (length s - length suffix) s = suffix
      then take (length s - length suffix) s else s)"

definition Base :: "string \<Rightarrow> string" where
  \<comment> \<open>\<^verbatim>\<open>path.Base\<close>: \<open>"."\<close> for the empty path; trailing slashes are stripped; the
      text after the last remaining slash is kept; \<open>"/"\<close> if nothing is left.\<close>
  "Base p =
     (if p = [] then ''.''
      else
        let p1 = rev (dropWhile (\<lambda>c. c = CHR ''/'') (rev p));
            p2 = (if CHR ''/'' \<in> set p1
                  then rev (takeWhile (\<lambda>c. c \<noteq> CHR ''/'') (rev p1)) else p1)
        in if p2 = [] then ''/'' else p2)"

subsection \<open>Percent-decoding and \<^verbatim>\<open>url.ParseQuery\<close>\<close>

datatype url_error = EscapeError string | SemicolonError

definition ishex :: "char \<Rightarrow> bool" where
  "ishex c = (let b = (of_char c :: nat) in
     (48 \<le> b \<and> b \<le> 57) \<or> (97 \<le> b \<and> b \<le> 102) \<or> (65 \<le> b \<and> b \<le> 70))"

definition unhex :: "char \<Rightarrow> nat" where
  "unhex c = (let b = (of_char c :: nat) in
     if 48 \<le> b \<and> b \<le> 57 then b - 48
     else if 97 \<le> b \<and> b \<le> 102 then b - 97 + 10
     else if 65 \<le> b \<and> b \<le> 70 then b - 65 + 10
     else 0)"

datatype encoding = encodePath | encodeHost | encodeQueryComponent

fun unescape :: "encoding \<Rightarrow> string \<Rightarrow> url_error + string" where
  \<comment> \<open>\<^verbatim>\<open>url.unescape\<close> in the two modes the handler reaches: a \<open>%\<close> must be followed
      by two hex digits, otherwise the first offending (at most three byte) fragment is
      the error; \<open>+\<close> is a space in a query component only.\<close>
  "unescape mode [] = Inr []"
| "unescape mode [c] =
     (if c = CHR ''%'' then Inl (EscapeError [c])
      else Inr [if c = CHR ''+'' \<and> mode = encodeQueryComponent then CHR '' '' else c])"
| "unescape mode [c, d] =
     (if c = CHR ''%'' then Inl (EscapeError [c, d])
      else map_sum id (Cons (if c = CHR ''+'' \<and> mode = encodeQueryComponent then CHR '' '' else c))
             (unescape mode [d]))"
| "unescape mode (c # h1 # h2 # rest) =
     (if c = CHR ''%'' then
        (if ishex h1 \<and> ishex h2
         then map_sum id (Cons (char_of (unhex h1 * 16 + unhex h2))) (unescape mode rest)
         else Inl (EscapeError [c, h1, h2]))
      else map_sum id (Cons (if c = CHR ''+'' \<and> mode = encodeQueryComponent then CHR '' '' else c))
             (unescape mode (h1 # h2 # rest)))"

definition QueryUnescape :: "string \<Rightarrow> url_error + string" where
  "QueryUnescape s = unescape encodeQueryComponent s"

text \<open>
  \<^verbatim>\<open>url.Values\<close> is \<^verbatim>\<open>map[string][]string\<close>. It is kept as an association list with
  distinct keys, in order of first insertion; \<open>values_add\<close> is
  \<^verbatim>\<open>m[key] = append(m[key], value)\<close>.
\<close>

type_synonym Values = "(string \<times> string list) list"

fun values_add :: "Values \<Rightarrow> string \<Rightarrow> string \<Rightarrow> Values" where
  "values_add [] k v = [(k, [v])]"
| "values_add ((k', vs) # m) k v =
     (if k' = k then (k', vs @ [v]) # m else (k', vs) # values_add m k v)"

definition wellformed :: "Values \<Rightarrow> bool" where
  \<comment> \<open>What holds of a Go map filled by \<open>values_add\<close>: one entry per key, each with at
      least one value.\<close>
  "wellformed m = (distinct (map fst m) \<and> (\<forall>(k, vs) \<in> set m. vs \<noteq> []))"

definition parsePair :: "Values \<Rightarrow> url_error option \<Rightarrow> string \<Rightarrow> Values \<times> url_error option" where
  \<comment> \<open>The body of the loop of \<^verbatim>\<open>url.parseQuery\<close> for one \<open>&\<close>-separated piece: a
      piece with a semicolon sets the error (overwriting an earlier one), an empty piece is
      skipped, a piece whose key or value does not unescape is dropped and its error kept
      if it is the first.\<close>
  "parsePair m err key =
     (if CHR '';'' \<in> set key then (m, Some SemicolonError)
      else if key = [] then (m, err)
      else
        (case Cut key CHR ''='' of (k, v, _) \<Rightarrow>
          (case QueryUnescape k of
             Inl e1 \<Rightarrow> (m, if err = None then Some e1 else err)
           | Inr k' \<Rightarrow>
              (case QueryUnescape v of
                 Inl e1 \<Rightarrow> (m, if err = None then Some e1 else err)
               | Inr v' \<Rightarrow> (values_add m k' v', err)))))"

function parseQuery :: "Values \<Rightarrow> url_error option \<Rightarrow> string \<Rightarrow> Values \<times> url_error option" where
  "parseQuery m err query =
     (if query = [] then (m, err)
      else parseQuery (fst (parsePair m err (fst (Cut query CHR ''&''))))
                      (snd (parsePair m err (fst (Cut query CHR ''&''))))
                      (fst (snd (Cut query CHR ''&''))))"
  by pat_completeness auto
termination
proof (relation "measure (\<lambda>(m, err, query). length query)")
  show "wf (measure (\<lambda>(m, err, query). length query))" by simp
next
  fix m :: Values and err :: "url_error option" and query :: string
  assume "query \<noteq> []"
  then obtain c cs where q: "query = c # cs" by (cases query) auto
  have "length (dropWhile (\<lambda>x. x \<noteq> CHR ''&'') cs) \<le> length cs"
    by (rule length_dropWhile_le)
  then have "length (drop 1 (dropWhile (\<lambda>x. x \<noteq> CHR ''&'') query)) < length query"
    using q by auto
  then show "((fst (parsePair m err (fst (Cut query CHR ''&''))),
               snd (parsePair m err (fst (Cut query CHR ''&''))),
               fst (snd (Cut query CHR ''&''))), m, err, query)
             \<in> measure (\<lambda>(m, err, query). length query)"
    by (simp add: Cut_def)
qed

declare parseQuery.simps [simp del]

definition ParseQuery :: "string \<Rightarrow> Values \<times> url_error option" where
  \<comment> \<open>\<^verbatim>\<open>url.ParseQuery\<close>: the values decoded so far are returned together with the
      first error met.\<close>
  "ParseQuery query = parseQuery [] None query"

subsection \<open>The request URL\<close>

record URL =
  Scheme :: string
  Host :: string
  Path :: string
  RawQuery :: string

definition requestURL :: "string \<Rightarrow> (url_error + URL)" where
  \<comment> \<open>How \<^verbatim>\<open>net/http\<close> fills \<^verbatim>\<open>r.URL\<close> from an origin-form request target (one
      that starts with a slash and has no control byte): the text after the first \<open>?\<close>
      is the raw query, the text before it is percent-decoded into the path; a target
      with a malformed escape in its path is rejected before any handler runs.\<close>
  "requestURL target =
     (case Cut target CHR ''?'' of (rest, q, _) \<Rightarrow>
        (case unescape encodePath rest of
           Inl e \<Rightarrow> Inl e
         | Inr p \<Rightarrow> Inr \<lparr>Scheme = [], Host = [], Path = p, RawQuery = q\<rparr>))"

subsection \<open>Percent-encoding, \<^verbatim>\<open>url.Values.Encode\<close> and \<^verbatim>\<open>url.URL.String\<close>\<close>

definition isAlnum :: "char \<Rightarrow> bool" where
  "isAlnum c = (let b = (of_char c :: nat) in
     (97 \<le> b \<and> b \<le> 122) \<or> (65 \<le> b \<and> b \<le> 90) \<or> (48 \<le> b \<and> b \<le> 57))"

definition shouldEscape :: "char \<Rightarrow> encoding \<Rightarrow> bool" where
  \<comment> \<open>\<^verbatim>\<open>url.shouldEscape\<close> for the three modes used here.\<close>
  "shouldEscape c mode =
     (if isAlnum c then False
      else if mode = encodeHost \<and>
              c \<in> set ''!$&()*+,;=:[]<>'' \<union> {CHR 0x27, CHR 0x22} then False
      else if c \<in> set ''-_.~'' then False
      else if c \<in> set ''$&+,/:;=?@'' then
        (case mode of
           encodePath \<Rightarrow> c = CHR ''?''
         | encodeQueryComponent \<Rightarrow> True
         | encodeHost \<Rightarrow> True)
      else True)"

definition upperhex :: "nat \<Rightarrow> char" where
  "upperhex n = ''0123456789ABCDEF'' ! (n mod 16)"

definition escape_byte :: "encoding \<Rightarrow> char \<Rightarrow> string" where
  "escape_byte mode c =
     (if c = CHR '' '' \<and> mode = encodeQueryComponent then ''+''
      else if shouldEscape c mode
      then [CHR ''%'', upperhex ((of_char c :: nat) div 16), upperhex ((of_char c :: nat) mod 16)]
      else [c])"

definition escape :: "string \<Rightarrow> encoding \<Rightarrow> string" where
  "escape s mode = concat (map (escape_byte mode) s)"

definition QueryEscape :: "string \<Rightarrow> string" where
  "QueryEscape s = escape s encodeQueryComponent"

fun str_less :: "string \<Rightarrow> string \<Rightarrow> bool" where
  \<comment> \<open>Go's \<open><\<close> on strings: bytewise lexicographic.\<close>
  "str_less [] [] = False"
| "str_less [] (y # ys) = True"
| "str_less (x # xs) [] = False"
| "str_less (x # xs) (y # ys) =
     ((of_char x :: nat) < of_char y \<or> (x = y \<and> str_less xs ys))"

fun insert_key :: "string \<times> string list \<Rightarrow> Values \<Rightarrow> Values" where
  "insert_key e [] = [e]"
| "insert_key e (x # xs) =
     (if str_less (fst x) (fst e) then x # insert_key e xs else e # x # xs)"

definition sortedKeys :: "Values \<Rightarrow> Values" where
  \<comment> \<open>The entries in the order of \<^verbatim>\<open>slices.Sorted(maps.Keys(v))\<close>.\<close>
  "sortedKeys v = foldr insert_key v []"

fun encode_values :: "string \<Rightarrow> string \<Rightarrow> string list \<Rightarrow> string" where
  "encode_values buf keyEscaped [] = buf"
| "encode_values buf keyEscaped (v # vs) =
     encode_values
       ((if buf \<noteq> [] then buf @ ''&'' else buf) @ keyEscaped @ ''='' @ QueryEscape v)
       keyEscaped vs"

fun encode_keys :: "string \<Rightarrow> Values \<Rightarrow> string" where
  "encode_keys buf [] = buf"
| "encode_keys buf ((k, vs) # rest) = encode_keys (encode_values buf (QueryEscape k) vs) rest"

definition Encode :: "Values \<Rightarrow> string" where
  \<comment> \<open>\<^verbatim>\<open>url.Values.Encode\<close>: \<open>key=value\<close> pieces, keys sorted, joined by \<open>&\<close>.\<close>
  "Encode v = (if v = [] then [] else encode_keys [] (sortedKeys v))"

definition EscapedPath :: "URL \<Rightarrow> string" where
  \<comment> \<open>No \<^verbatim>\<open>RawPath\<close> is ever set by the exporter.\<close>
  "EscapedPath u = (if Path u = ''*'' then ''*'' else escape (Path u) encodePath)"

definition URL_String :: "URL \<Rightarrow> string" where
  \<comment> \<open>\<^verbatim>\<open>url.URL.String\<close> for a URL without opaque part, user info or fragment.\<close>
  "URL_String u =
     (if Scheme u \<noteq> [] then Scheme u @ '':'' else [])
     @ (if Scheme u \<noteq> [] \<or> Host u \<noteq> [] then
          (if Host u \<noteq> [] \<or> Path u \<noteq> [] then ''//'' else [])
          @ (if Host u \<noteq> [] then escape (Host u) encodeHost else [])
        else [])
     @ (let path = EscapedPath u in
          (if path \<noteq> [] \<and> take 1 path \<noteq> ''/'' \<and> Host u \<noteq> [] then ''/'' else [])
          @ (if Scheme u = [] \<and> Host u = [] \<and> CHR '':'' \<in> set (fst (Cut path CHR ''/''))
             then ''./'' else [])
          @ path)
     @ (if RawQuery u \<noteq> [] then ''?'' @ RawQuery u else [])"

subsection \<open>\<^verbatim>\<open>fmt.Sprintf("%d", n)\<close>\<close>

function digits :: "nat \<Rightarrow> string" where
  "digits n =
     (if n < 10 then [char_of (48 + n)] else digits (n div 10) @ [char_of (48 + n mod 10)])"
  by pat_completeness auto
termination
  by (relation "measure id") auto

declare digits.simps [simp del]

definition itoa :: "int \<Rightarrow> string" where
  "itoa i = (if i < 0 then CHR ''-'' # digits (nat (- i)) else digits (nat i))"

subsection \<open>UTF-8 validity and Prometheus metric names\<close>

definition cont :: "char \<Rightarrow> nat \<Rightarrow> nat \<Rightarrow> bool" where
  "cont c lo hi = (lo \<le> (of_char c :: nat) \<and> (of_char c :: nat) \<le> hi)"

fun ValidString :: "string \<Rightarrow> bool" where
  \<comment> \<open>\<^verbatim>\<open>utf8.ValidString\<close>: well-formed UTF-8 without overlong forms, surrogates or
      code points above U+10FFFF.\<close>
  "ValidString [] = True"
| "ValidString (c # cs) =
     (let b = (of_char c :: nat) in
      if b < 128 then ValidString cs
      else if 194 \<le> b \<and> b \<le> 223 then
        (case cs of c1 # r \<Rightarrow> cont c1 128 191 \<and> ValidString r | _ \<Rightarrow> False)
      else if 224 \<le> b \<and> b \<le> 239 then
        (case cs of
           c1 # c2 # r \<Rightarrow>
             cont c1 (if b = 224 then 160 else 128) (if b = 237 then 159 else 191)
             \<and> cont c2 128 191 \<and> ValidString r
         | _ \<Rightarrow> False)
      else if 240 \<le> b \<and> b \<le> 244 then
        (case cs of
           c1 # c2 # c3 # r \<Rightarrow>
             cont c1 (if b = 240 then 144 else 128) (if b = 244 then 143 else 191)
             \<and> cont c2 128 191 \<and> cont c3 128 191 \<and> ValidString r
         | _ \<Rightarrow> False)
      else False)"

datatype validation_scheme = LegacyValidation | UTF8Validation

definition isValidLegacyRune :: "char \<Rightarrow> nat \<Rightarrow> bool" where
  "isValidLegacyRune c i = (let b = (of_char c :: nat) in
     (97 \<le> b \<and> b \<le> 122) \<or> (65 \<le> b \<and> b \<le> 90) \<or> c = CHR ''_'' \<or> c = CHR '':''
     \<or> (48 \<le> b \<and> b \<le> 57 \<and> 0 < i))"

definition IsValidLegacyMetricName :: "string \<Rightarrow> bool" where
  "IsValidLegacyMetricName n =
     (n \<noteq> [] \<and> list_all (\<lambda>(c, i). isValidLegacyRune c i) (zip n [0..<length n]))"

definition IsValidMetricName :: "validation_scheme \<Rightarrow> string \<Rightarrow> bool" where
  \<comment> \<open>The check \<^verbatim>\<open>prometheus.NewDesc\<close> makes on the metric name. Which scheme applies
      depends on the version of the Prometheus client the program is built with: the
      legacy scheme is \<open>[a-zA-Z_:][a-zA-Z0-9_:]*\<close>, the other accepts every non-empty
      valid UTF-8 string.\<close>
  "IsValidMetricName scheme n =
     (case scheme of
        LegacyValidation \<Rightarrow> IsValidLegacyMetricName n
      | UTF8Validation \<Rightarrow> n \<noteq> [] \<and> ValidString n)"

section \<open>Collaborators taken as parameters\<close>

text \<open>
  What the handler needs from outside the repository and is not modelled byte by byte:
  \<^item> \<open>ParseFloat s\<close> is \<^verbatim>\<open>strconv.ParseFloat(s, 64)\<close>, \<open>None\<close> when it returns an error;
  \<^item> \<open>ToUpper\<close> is \<^verbatim>\<open>strings.ToUpper\<close> (Unicode aware);
  \<^item> \<open>NameValidationScheme\<close> is the metric-name scheme of the Prometheus client;
  \<^item> \<open>NewRequestOK t\<close> says whether \<^verbatim>\<open>http.NewRequest("GET", t, nil)\<close> returns no error;
  \<^item> \<open>RangeOrder\<close> is the order in which \<^verbatim>\<open>range\<close> visits the entries of a map, which
    the Go runtime chooses.
\<close>

record 'v extern =
  ParseFloat :: "string \<Rightarrow> 'v option"
  ToUpper :: "string \<Rightarrow> string"
  NameValidationScheme :: validation_scheme
  NewRequestOK :: "string \<Rightarrow> bool"
  RangeOrder :: "Values \<Rightarrow> Values"

section \<open>The exporter: \<^verbatim>\<open>main.go\<close>\<close>

subsection \<open>Flags and package-level variables\<close>

record config =
  mirrorHost :: string
  mirrorPort :: int
  mirrorPath :: string
  mirrorHTTPS :: bool

definition flagDefaults :: config where
  \<comment> \<open>The defaults given to \<^verbatim>\<open>flag.String\<close>, \<^verbatim>\<open>flag.Int\<close> and \<^verbatim>\<open>flag.Bool\<close>.\<close>
  "flagDefaults =
     \<lparr>mirrorHost = [], mirrorPort = 8000, mirrorPath = ''/data/report'', mirrorHTTPS = False\<rparr>"

definition ignoredKeys :: "string list" where
  "ignoredKeys = [''PASSKEY'', ''MAC'', ''STATIONTYPE'', ''SOFTWARETYPE'', ''DATEUTC'', ''TZ'']"

subsection \<open>The metric registry and \<^verbatim>\<open>getGauge\<close>\<close>

text \<open>
  A \<^verbatim>\<open>*prometheus.GaugeVec\<close> is created only by \<open>getGauge\<close>, which stores the pointer
  under the field name and returns that same pointer, on both return paths. So the object a
  handle points to is the one stored under its field name, and \<open>gaugeMap\<close> holds the
  objects themselves. \<open>registered\<close> lists the fully-qualified names of the collectors
  registered with \<^verbatim>\<open>prometheus.DefaultRegisterer\<close>.
\<close>

record 'v GaugeVec =
  Name :: string
  Help :: string
  LabelNames :: "string list"
  Samples :: "string \<rightharpoonup> 'v"

record 'v state =
  gaugeMap :: "string \<rightharpoonup> 'v GaugeVec"
  registered :: "string list"

datatype panic =
  InvalidDescriptor string
  | AlreadyRegistered string
  | InvalidLabelValue string
  | IndexOutOfRange

datatype 'a result = Returned 'a | Panicked panic

definition NewGaugeVec :: "string \<Rightarrow> string \<Rightarrow> string list \<Rightarrow> 'v GaugeVec" where
  "NewGaugeVec name help labels =
     \<lparr>Name = name, Help = help, LabelNames = labels, Samples = Map.empty\<rparr>"

definition Register :: "validation_scheme \<Rightarrow> string list \<Rightarrow> 'v GaugeVec \<Rightarrow> panic + string list" where
  \<comment> \<open>\<^verbatim>\<open>Registry.Register\<close> on a collector with one descriptor: an invalid descriptor
      or a name that is already registered is an error and registers nothing.\<close>
  "Register scheme regs g =
     (if \<not> IsValidMetricName scheme (Name g) then Inl (InvalidDescriptor (Name g))
      else if Name g \<in> set regs then Inl (AlreadyRegistered (Name g))
      else Inr (regs @ [Name g]))"

definition getGauge :: "'v extern \<Rightarrow> string \<Rightarrow> 'v state \<Rightarrow> 'v GaugeVec result \<times> 'v state" where
  \<comment> \<open>The whole body runs under \<^verbatim>\<open>gaugeMap.Lock()\<close>, released by the deferred unlock
      also when \<^verbatim>\<open>MustRegister\<close> panics; the map is written only after registration.\<close>
  "getGauge E field st =
     (case gaugeMap st field of
        Some g \<Rightarrow> (Returned g, st)
      | None \<Rightarrow>
          (let g = NewGaugeVec (''awp_'' @ field) (''AWP sensor value for '' @ field) [''station'']
           in case Register (NameValidationScheme E) (registered st) g of
                Inl p \<Rightarrow> (Panicked p, st)
              | Inr regs \<Rightarrow>
                  (Returned g, st\<lparr>registered := regs, gaugeMap := (gaugeMap st)(field \<mapsto> g)\<rparr>)))"

definition WithLabelValues_Set ::
    "string \<Rightarrow> 'v GaugeVec \<Rightarrow> string \<Rightarrow> 'v \<Rightarrow> 'v state \<Rightarrow> unit result \<times> 'v state" where
  \<comment> \<open>\<^verbatim>\<open>g.WithLabelValues(station).Set(f)\<close> on the handle \<open>g\<close> stored under \<open>field\<close>:
      \<^verbatim>\<open>WithLabelValues\<close> panics on a label value that is not valid UTF-8.\<close>
  "WithLabelValues_Set field g station f st =
     (if \<not> ValidString station then (Panicked (InvalidLabelValue station), st)
      else (Returned (),
            st\<lparr>gaugeMap := (gaugeMap st)(field \<mapsto> g\<lparr>Samples := (Samples g)(station \<mapsto> f)\<rparr>)\<rparr>))"

subsection \<open>\<^verbatim>\<open>mirrorRequest\<close>\<close>

record http_request =
  Method :: string
  Target :: string
  Header :: "(string \<times> string) list"

datatype mirror_outcome =
  MirrorDisabled
  | MirrorCreateFailed string
  | MirrorSent http_request

definition mirrorURL :: "config \<Rightarrow> Values \<Rightarrow> URL" where
  \<comment> \<open>Lines 266 to 282: the scheme, the port and the URL built from them.\<close>
  "mirrorURL cfg vals =
     (let scheme = (if mirrorHTTPS cfg then ''https'' else ''http'');
          port = (if mirrorHTTPS cfg \<and> mirrorPort cfg = 80 then 443 else mirrorPort cfg)
      in \<lparr>Scheme = scheme,
          Host = mirrorHost cfg @ '':'' @ itoa port,
          Path = TrimSuffix (mirrorPath cfg) ''/'',
          RawQuery = Encode vals\<rparr>)"

definition mirrorRequest :: "'v extern \<Rightarrow> config \<Rightarrow> Values \<Rightarrow> string \<Rightarrow> mirror_outcome" where
  \<comment> \<open>What the goroutine does up to \<^verbatim>\<open>mirrorClient.Do(req)\<close>; the response is only
      logged. \<open>station\<close> is used in log messages only.\<close>
  "mirrorRequest E cfg vals station =
     (if mirrorHost cfg = [] then MirrorDisabled
      else
        let t = URL_String (mirrorURL cfg vals)
        in if \<not> NewRequestOK E t then MirrorCreateFailed t
           else MirrorSent \<lparr>Method = ''GET'', Target = t,
                            Header = [(''User-Agent'', ''awp-exporter-mirror/1.0'')]\<rparr>)"

subsection \<open>\<^verbatim>\<open>reportHandler\<close>\<close>

definition decode :: "URL \<Rightarrow> string \<times> Values \<times> url_error option" where
  \<comment> \<open>Lines 221 to 236 of \<^verbatim>\<open>main.go\<close>: the station and the decoded values.\<close>
  "decode u =
     (if RawQuery u \<noteq> [] then
        (Base (Path u), ParseQuery (RawQuery u))
      else
        (case Cut (Path u) CHR ''&'' of (urlPath, queryParams, _) \<Rightarrow>
           (Base urlPath, ParseQuery queryParams)))"

fun rangeLoop :: "'v extern \<Rightarrow> string \<Rightarrow> Values \<Rightarrow> 'v state \<Rightarrow> unit result \<times> 'v state" where
  \<comment> \<open>Lines 247 to 257, over the entries in the order they are visited. \<^verbatim>\<open>vv[0]\<close>
      on an empty list would be an index panic.\<close>
  "rangeLoop E station [] st = (Returned (), st)"
| "rangeLoop E station ((k, vv) # rest) st =
     (if ToUpper E k \<in> set ignoredKeys then rangeLoop E station rest st
      else
        (case vv of
           [] \<Rightarrow> (Panicked IndexOutOfRange, st)
         | v0 # _ \<Rightarrow>
            (case ParseFloat E v0 of
               None \<Rightarrow> rangeLoop E station rest st
             | Some f \<Rightarrow>
                (case getGauge E k st of
                   (Panicked p, st1) \<Rightarrow> (Panicked p, st1)
                 | (Returned g, st1) \<Rightarrow>
                    (case WithLabelValues_Set k g station f st1 of
                       (Panicked p, st2) \<Rightarrow> (Panicked p, st2)
                     | (Returned _, st2) \<Rightarrow> rangeLoop E station rest st2)))))"

record 'v handled =
  wroteHeader :: "nat option"
  written :: string
  mirrored :: mirror_outcome
  outcome :: "unit result"
  after :: "'v state"

definition reportHandler :: "'v extern \<Rightarrow> config \<Rightarrow> URL \<Rightarrow> 'v state \<Rightarrow> 'v handled" where
  \<comment> \<open>\<^verbatim>\<open>w.WriteHeader(http.StatusNoContent)\<close> comes first and nothing else is written
      to \<open>w\<close>. The goroutine running \<open>mirrorRequest\<close> is started before the loop and does
      not touch the registry, so its outcome is recorded beside the loop's.\<close>
  "reportHandler E cfg u st =
     (case decode u of (awpStation, (vals, err)) \<Rightarrow>
        (case rangeLoop E awpStation (RangeOrder E vals) st of (r, st') \<Rightarrow>
           \<lparr>wroteHeader = Some 204, written = [],
            mirrored = mirrorRequest E cfg vals awpStation,
            outcome = r, after = st'\<rparr>))"

definition deviceResponse :: "'v handled \<Rightarrow> (nat \<times> string) option" where
  \<comment> \<open>What \<^verbatim>\<open>net/http\<close> sends for a handler call: when the handler returns, the status
      it set (200 if none) and the body it wrote; when the handler panics, the server
      recovers, logs and closes the connection, and the header recorded by
      \<^verbatim>\<open>WriteHeader\<close>, not yet flushed, is never sent.\<close>
  "deviceResponse h =
     (case outcome h of
        Panicked _ \<Rightarrow> None
      | Returned _ \<Rightarrow>
          Some (case wroteHeader h of None \<Rightarrow> 200 | Some c \<Rightarrow> c, written h))"

subsection \<open>Sequences of operations on the registry\<close>

text \<open>
  Requests are served concurrently. \<open>getGauge\<close> holds the lock for its whole body and a
  \<^verbatim>\<open>Set\<close> on a gauge is atomic, so a concurrent execution is a sequence of these steps,
  possibly of different requests in turn; \<open>SetSample\<close> is the
  \<^verbatim>\<open>WithLabelValues(station).Set(f)\<close> of a request on the handle it got for a field, which
  exists only once the field has its entry. \<open>Report\<close> is a request handled without
  interruption.
\<close>

datatype 'v op = GetGauge string | SetSample string string 'v | Report URL

definition initState :: "'v state" where
  "initState = \<lparr>gaugeMap = Map.empty, registered = []\<rparr>"

fun exec :: "'v extern \<Rightarrow> config \<Rightarrow> 'v op \<Rightarrow> 'v state \<Rightarrow> 'v state" where
  "exec E cfg (GetGauge field) st = snd (getGauge E field st)"
| "exec E cfg (SetSample field station f) st =
     (case gaugeMap st field of
        None \<Rightarrow> st
      | Some g \<Rightarrow> snd (WithLabelValues_Set field g station f st))"
| "exec E cfg (Report u) st = after (reportHandler E cfg u st)"

definition run :: "'v extern \<Rightarrow> config \<Rightarrow> 'v op list \<Rightarrow> 'v state \<Rightarrow> 'v state" where
  "run E cfg ops st = foldl (\<lambda>s x. exec E cfg x s) st ops"

definition registryInv :: "'v extern \<Rightarrow> 'v state \<Rightarrow> bool" where
  \<comment> \<open>The registry and the Prometheus registerer agree: no name is registered twice,
      the entry under a field is the registered, valid collector named after the field,
      and a registered \<open>awp_\<close> name has its entry.\<close>
  "registryInv E st =
     (distinct (registered st)
      \<and> (\<forall>k g. gaugeMap st k = Some g \<longrightarrow>
             Name g = ''awp_'' @ k \<and> ''awp_'' @ k \<in> set (registered st)
             \<and> IsValidMetricName (NameValidationScheme E) (''awp_'' @ k))
      \<and> (\<forall>k. ''awp_'' @ k \<in> set (registered st) \<longrightarrow> gaugeMap st k \<noteq> None))"

definition grows :: "'v state \<Rightarrow> 'v state \<Rightarrow> bool" where
  \<comment> \<open>Nothing was removed on the way from \<open>st\<close> to \<open>st'\<close>: every entry is still
      there under its field name, with the same metric name, help and label names, and the
      registered names of \<open>st\<close> are a prefix of those of \<open>st'\<close>.\<close>
  "grows st st' =
     ((\<forall>k g. gaugeMap st k = Some g \<longrightarrow>
          (\<exists>g'. gaugeMap st' k = Some g' \<and> Name g' = Name g \<and> Help g' = Help g
                \<and> LabelNames g' = LabelNames g))
      \<and> (\<exists>more. registered st' = registered st @ more))"

subsection \<open>The naming convention in the words of the specification\<close>

definition asciiLower :: "string \<Rightarrow> string" where
  "asciiLower s =
     map (\<lambda>c. if 65 \<le> (of_char c :: nat) \<and> (of_char c :: nat) \<le> 90
              then char_of ((of_char c :: nat) + 32) else c) s"

definition specMetricName :: "string \<Rightarrow> string" where
  \<comment> \<open>The naming convention as the specification words it: the prefix followed by the
      lower-cased field name. Compared below with the name \<open>getGauge\<close> gives.\<close>
  "specMetricName field = ''awp_'' @ asciiLower field"

subsection \<open>An instance of the collaborators, to run the model on concrete reports\<close>

definition asciiUpper :: "string \<Rightarrow> string" where
  \<comment> \<open>\<^verbatim>\<open>strings.ToUpper\<close> on ASCII text.\<close>
  "asciiUpper s =
     map (\<lambda>c. if 97 \<le> (of_char c :: nat) \<and> (of_char c :: nat) \<le> 122
              then char_of ((of_char c :: nat) - 32) else c) s"

definition isDigit :: "char \<Rightarrow> bool" where
  "isDigit c = (48 \<le> (of_char c :: nat) \<and> (of_char c :: nat) \<le> 57)"

definition parseDecimal :: "string \<Rightarrow> (int \<times> nat) option" where
  \<comment> \<open>Plain decimal literals, an optional sign, digits and an optional fraction, read
      exactly: \<open>(m, d)\<close> stands for \<open>m / 10 ^ d\<close>. On such a literal of up to 300
      digits \<^verbatim>\<open>strconv.ParseFloat\<close> succeeds too, and on \<open>N/A\<close> it fails as well; it
      also accepts exponents, hexadecimal floats, \<open>inf\<close> and \<open>nan\<close>, which this
      instance rejects.\<close>
  "parseDecimal s =
     (let neg = (take 1 s = ''-'');
          r = (if take 1 s = ''-'' \<or> take 1 s = ''+'' then drop 1 s else s);
          ip = takeWhile isDigit r;
          rest = dropWhile isDigit r;
          fp = (if rest = [] then Some []
                else if take 1 rest = ''.'' \<and> list_all isDigit (drop 1 rest)
                then Some (drop 1 rest) else None)
      in case fp of
           None \<Rightarrow> None
         | Some f \<Rightarrow>
             if ip = [] \<and> f = [] then None
             else Some ((if neg then - 1 else 1)
                          * int (foldl (\<lambda>a c. a * 10 + ((of_char c :: nat) - 48)) 0 (ip @ f)),
                        length f))"

definition sampleEnv :: "validation_scheme \<Rightarrow> (int \<times> nat) extern" where
  "sampleEnv scheme =
     \<lparr>ParseFloat = parseDecimal, ToUpper = asciiUpper, NameValidationScheme = scheme,
      NewRequestOK = (\<lambda>t. True), RangeOrder = (\<lambda>v. v)\<rparr>"

section \<open>Lemmas about the library functions\<close>

lemma takeWhile_until:
  "sep \<notin> set p \<Longrightarrow> takeWhile (\<lambda>c. c \<noteq> sep) (p @ sep # q) = p"
  by (induction p) auto

lemma dropWhile_until:
  "sep \<notin> set p \<Longrightarrow> dropWhile (\<lambda>c. c \<noteq> sep) (p @ sep # q) = sep # q"
  by (induction p) auto

lemma takeWhile_absent:
  "sep \<notin> set s \<Longrightarrow> takeWhile (\<lambda>c. c \<noteq> sep) s = s"
  by (induction s) auto

lemma dropWhile_absent:
  "sep \<notin> set s \<Longrightarrow> dropWhile (\<lambda>c. c \<noteq> sep) s = []"
  by (induction s) auto

lemma Cut_found:
  "sep \<notin> set p \<Longrightarrow> Cut (p @ sep # q) sep = (p, q, True)"
  by (simp add: Cut_def takeWhile_until dropWhile_until)

lemma Cut_not_found:
  "sep \<notin> set s \<Longrightarrow> Cut s sep = (s, [], False)"
  by (simp add: Cut_def takeWhile_absent dropWhile_absent)

lemma Base_final_segment:
  assumes "seg \<noteq> []" and "CHR ''/'' \<notin> set seg"
  shows "Base (d @ CHR ''/'' # seg) = seg"
proof -
  obtain x xs where r: "rev seg = x # xs" using assms(1) by (cases "rev seg") auto
  have "x \<in> set seg" using r by (metis list.set_intros(1) set_rev)
  then have x: "x \<noteq> CHR ''/''" using assms(2) by auto
  have dw: "dropWhile (\<lambda>c. c = CHR ''/'') (rev (d @ CHR ''/'' # seg)) = rev (d @ CHR ''/'' # seg)"
    using r x by simp
  have tw: "takeWhile (\<lambda>c. c \<noteq> CHR ''/'') (rev seg @ CHR ''/'' # rev d) = rev seg"
    using assms(2) takeWhile_until[of "CHR ''/''" "rev seg" "rev d"] by simp
  show ?thesis
    unfolding Base_def dw using assms(1) tw by (simp add: Let_def)
qed

lemma encode_values_ext: "\<exists>post. encode_values buf ke vs = buf @ post"
proof (induction vs arbitrary: buf)
  case Nil
  then show ?case by simp
next
  case (Cons v vs)
  obtain post where
    "encode_values ((if buf \<noteq> [] then buf @ ''&'' else buf) @ ke @ ''='' @ QueryEscape v) ke vs
       = ((if buf \<noteq> [] then buf @ ''&'' else buf) @ ke @ ''='' @ QueryEscape v) @ post"
    using Cons.IH by blast
  then show ?case by (cases "buf = []") auto
qed

lemma encode_values_piece:
  "v \<in> set vs \<Longrightarrow> \<exists>pre post. encode_values buf ke vs = pre @ (ke @ ''='' @ QueryEscape v) @ post"
proof (induction vs arbitrary: buf)
  case Nil
  then show ?case by simp
next
  case (Cons w vs)
  let ?b = "(if buf \<noteq> [] then buf @ ''&'' else buf)"
  show ?case
  proof (cases "v = w")
    case True
    obtain post where "encode_values (?b @ ke @ ''='' @ QueryEscape w) ke vs
         = (?b @ ke @ ''='' @ QueryEscape w) @ post"
      using encode_values_ext by blast
    then have "encode_values buf ke (w # vs) = ?b @ (ke @ ''='' @ QueryEscape v) @ post"
      using True by simp
    then show ?thesis by blast
  next
    case False
    then have "v \<in> set vs" using Cons.prems by simp
    from Cons.IH[OF this, of "?b @ ke @ ''='' @ QueryEscape w"]
    show ?thesis by simp
  qed
qed

lemma encode_keys_ext: "\<exists>post. encode_keys buf xs = buf @ post"
proof (induction xs arbitrary: buf)
  case Nil
  then show ?case by simp
next
  case (Cons x xs)
  obtain k vs where x: "x = (k, vs)" by (cases x)
  obtain p1 where p1: "encode_values buf (QueryEscape k) vs = buf @ p1"
    using encode_values_ext by blast
  obtain p2 where "encode_keys (buf @ p1) xs = (buf @ p1) @ p2"
    using Cons.IH by blast
  then show ?case using x p1 by simp
qed

lemma encode_keys_piece:
  "(k, vs) \<in> set xs \<Longrightarrow> v \<in> set vs \<Longrightarrow>
   \<exists>pre post. encode_keys buf xs = pre @ (QueryEscape k @ ''='' @ QueryEscape v) @ post"
proof (induction xs arbitrary: buf)
  case Nil
  then show ?case by simp
next
  case (Cons x xs)
  obtain k' vs' where x: "x = (k', vs')" by (cases x)
  show ?case
  proof (cases "x = (k, vs)")
    case True
    obtain pre p1 where a: "encode_values buf (QueryEscape k) vs
        = pre @ (QueryEscape k @ ''='' @ QueryEscape v) @ p1"
      using encode_values_piece[OF Cons.prems(2)] by blast
    obtain p2 where "encode_keys (encode_values buf (QueryEscape k) vs) xs
        = encode_values buf (QueryEscape k) vs @ p2"
      using encode_keys_ext by blast
    then have "encode_keys buf (x # xs) = pre @ (QueryEscape k @ ''='' @ QueryEscape v) @ (p1 @ p2)"
      using True a by simp
    then show ?thesis by blast
  next
    case False
    then have "(k, vs) \<in> set xs" using Cons.prems(1) by simp
    from Cons.IH[OF this Cons.prems(2), of "encode_values buf (QueryEscape k') vs'"]
    show ?thesis using x by simp
  qed
qed

lemma set_insert_key: "set (insert_key e xs) = insert e (set xs)"
  by (induction xs) auto

lemma set_sortedKeys: "set (sortedKeys v) = set v"
  by (induction v) (simp_all add: sortedKeys_def set_insert_key)

lemma Encode_piece:
  assumes "(k, vs) \<in> set vals" and "v \<in> set vs"
  shows "\<exists>pre post. Encode vals = pre @ (QueryEscape k @ ''='' @ QueryEscape v) @ post"
proof -
  have "vals \<noteq> []" using assms(1) by auto
  moreover have "(k, vs) \<in> set (sortedKeys vals)" using assms(1) by (simp add: set_sortedKeys)
  ultimately show ?thesis
    using encode_keys_piece[OF _ assms(2), of k "sortedKeys vals" "[]"] by (simp add: Encode_def)
qed

lemma Encode_nonempty:
  assumes "(k, vs) \<in> set vals" and "v \<in> set vs"
  shows "Encode vals \<noteq> []"
  using Encode_piece[OF assms] by auto

lemma values_add_keys: "fst ` set (values_add m k v) = insert k (fst ` set m)"
  by (induction m k v rule: values_add.induct) auto

lemma values_add_wellformed: "wellformed m \<Longrightarrow> wellformed (values_add m k v)"
proof (induction m k v rule: values_add.induct)
  case (1 k v)
  then show ?case by (simp add: wellformed_def)
next
  case (2 k' vs m k v)
  have w: "wellformed m" using "2.prems" by (auto simp: wellformed_def)
  show ?case
  proof (cases "k' = k")
    case True
    then show ?thesis using "2.prems" by (auto simp: wellformed_def)
  next
    case False
    have "wellformed (values_add m k v)" using "2.IH"[OF False w] .
    moreover have "k' \<notin> fst ` set (values_add m k v)"
      using False "2.prems" by (auto simp: values_add_keys wellformed_def)
    ultimately show ?thesis using False "2.prems" by (auto simp: wellformed_def)
  qed
qed

lemma parsePair_wellformed: "wellformed m \<Longrightarrow> wellformed (fst (parsePair m err key))"
  by (auto simp: parsePair_def values_add_wellformed split: prod.splits sum.splits)

lemma parseQuery_wellformed: "wellformed m \<Longrightarrow> wellformed (fst (parseQuery m err query))"
proof (induction m err query rule: parseQuery.induct)
  case (1 m err query)
  show ?case
  proof (cases "query = []")
    case True
    then show ?thesis using "1.prems" by (simp add: parseQuery.simps)
  next
    case False
    have "wellformed (fst (parsePair m err (fst (Cut query CHR ''&''))))"
      using "1.prems" by (rule parsePair_wellformed)
    from "1.IH"[OF False this] show ?thesis
      using False by (subst parseQuery.simps) simp
  qed
qed

lemma ParseQuery_wellformed: "wellformed (fst (ParseQuery query))"
  unfolding ParseQuery_def by (rule parseQuery_wellformed) (simp add: wellformed_def)

lemma reordered_keys_distinct:
  assumes "distinct (map fst vals)" and "set ro = set vals" and "length ro = length vals"
  shows "distinct (map fst ro)"
proof -
  have d: "distinct vals" and i: "inj_on fst (set vals)"
    using assms(1) by (auto simp: distinct_map)
  have "card (set ro) = length ro"
    using d assms(2,3) by (simp add: distinct_card)
  then have "distinct ro" by (rule card_distinct)
  then show ?thesis using i assms(2) by (simp add: distinct_map)
qed

section \<open>Lemmas about the decoder and the mirror URL\<close>

lemma decode_standard:
  "RawQuery u \<noteq> [] \<Longrightarrow> decode u = (Base (Path u), ParseQuery (RawQuery u))"
  by (simp add: decode_def)

lemma decode_ampersand:
  "RawQuery u = [] \<Longrightarrow> Path u = p @ CHR ''&'' # q \<Longrightarrow> CHR ''&'' \<notin> set p \<Longrightarrow>
   decode u = (Base p, ParseQuery q)"
  by (simp add: decode_def Cut_found)

lemma ParseQuery_empty: "ParseQuery [] = ([], None)"
  by (simp add: ParseQuery_def parseQuery.simps)

lemma decode_plain:
  "RawQuery u = [] \<Longrightarrow> CHR ''&'' \<notin> set (Path u) \<Longrightarrow>
   decode u = (Base (Path u), [], None)"
  by (simp add: decode_def Cut_not_found ParseQuery_empty)

lemma decode_wellformed: "wellformed (fst (snd (decode u)))"
  by (simp add: decode_def ParseQuery_wellformed split: prod.splits)

lemma mirrorURL_sel:
  "Scheme (mirrorURL cfg vals) = (if mirrorHTTPS cfg then ''https'' else ''http'')"
  "Host (mirrorURL cfg vals) =
     mirrorHost cfg @ '':'' @
     itoa (if mirrorHTTPS cfg \<and> mirrorPort cfg = 80 then 443 else mirrorPort cfg)"
  "Path (mirrorURL cfg vals) = TrimSuffix (mirrorPath cfg) ''/''"
  "RawQuery (mirrorURL cfg vals) = Encode vals"
  by (simp_all add: mirrorURL_def Let_def)

lemma URL_String_mirror:
  "URL_String (mirrorURL cfg vals) =
     (if mirrorHTTPS cfg then ''https'' else ''http'') @ ''://''
     @ escape (mirrorHost cfg @ '':'' @
               itoa (if mirrorHTTPS cfg \<and> mirrorPort cfg = 80 then 443 else mirrorPort cfg))
         encodeHost
     @ (if EscapedPath (mirrorURL cfg vals) \<noteq> []
           \<and> take 1 (EscapedPath (mirrorURL cfg vals)) \<noteq> ''/''
        then ''/'' else [])
     @ EscapedPath (mirrorURL cfg vals)
     @ (if Encode vals \<noteq> [] then ''?'' @ Encode vals else [])"
  by (simp add: URL_String_def mirrorURL_sel Let_def)

section \<open>Lemmas about the registry\<close>

lemma getGauge_present:
  "gaugeMap st F = Some g \<Longrightarrow> getGauge E F st = (Returned g, st)"
  by (simp add: getGauge_def)

lemma getGauge_absent_cases:
  assumes "gaugeMap st F = None"
  shows "(\<exists>p. getGauge E F st = (Panicked p, st)) \<or>
         (\<exists>g. getGauge E F st =
                (Returned g, st\<lparr>registered := registered st @ [Name g],
                                gaugeMap := (gaugeMap st)(F \<mapsto> g)\<rparr>)
              \<and> g = NewGaugeVec (''awp_'' @ F) (''AWP sensor value for '' @ F) [''station'']
              \<and> IsValidMetricName (NameValidationScheme E) (''awp_'' @ F)
              \<and> ''awp_'' @ F \<notin> set (registered st))"
  using assms
  by (auto simp: getGauge_def Register_def NewGaugeVec_def Let_def)

lemma getGauge_panic_state:
  "getGauge E F st = (Panicked p, st') \<Longrightarrow> st' = st"
  by (auto simp: getGauge_def Register_def Let_def split: option.splits if_splits)

lemma getGauge_returned_entry:
  "getGauge E F st = (Returned g, st') \<Longrightarrow> gaugeMap st' F = Some g"
  by (auto simp: getGauge_def Register_def Let_def split: option.splits if_splits)

lemma getGauge_other_entries:
  "k \<noteq> F \<Longrightarrow> gaugeMap (snd (getGauge E F st)) k = gaugeMap st k"
  by (auto simp: getGauge_def Register_def Let_def split: option.splits if_splits)

lemma getGauge_keeps_entries:
  "gaugeMap st k = Some g \<Longrightarrow> gaugeMap (snd (getGauge E F st)) k = Some g"
  by (auto simp: getGauge_def Register_def Let_def split: option.splits if_splits)

lemma getGauge_registered:
  "registered (snd (getGauge E F st)) = registered st \<or>
   (gaugeMap st F = None \<and> registered (snd (getGauge E F st)) = registered st @ [''awp_'' @ F])"
  by (auto simp: getGauge_def Register_def NewGaugeVec_def Let_def split: option.splits if_splits)

lemma registryInvI:
  assumes "distinct (registered st)"
    and "\<And>k g. gaugeMap st k = Some g \<Longrightarrow> Name g = ''awp_'' @ k"
    and "\<And>k g. gaugeMap st k = Some g \<Longrightarrow> ''awp_'' @ k \<in> set (registered st)"
    and "\<And>k g. gaugeMap st k = Some g \<Longrightarrow>
            IsValidMetricName (NameValidationScheme E) (''awp_'' @ k)"
    and "\<And>k. ''awp_'' @ k \<in> set (registered st) \<Longrightarrow> gaugeMap st k \<noteq> None"
  shows "registryInv E st"
  unfolding registryInv_def using assms by blast

lemma registryInv_distinct: "registryInv E st \<Longrightarrow> distinct (registered st)"
  by (simp add: registryInv_def)

lemma registryInv_name: "registryInv E st \<Longrightarrow> gaugeMap st k = Some g \<Longrightarrow> Name g = ''awp_'' @ k"
  unfolding registryInv_def by blast

lemma registryInv_reg:
  "registryInv E st \<Longrightarrow> gaugeMap st k = Some g \<Longrightarrow> ''awp_'' @ k \<in> set (registered st)"
  unfolding registryInv_def by blast

lemma registryInv_valid:
  "registryInv E st \<Longrightarrow> gaugeMap st k = Some g \<Longrightarrow>
   IsValidMetricName (NameValidationScheme E) (''awp_'' @ k)"
  unfolding registryInv_def by blast

lemma registryInv_entry:
  "registryInv E st \<Longrightarrow> ''awp_'' @ k \<in> set (registered st) \<Longrightarrow> gaugeMap st k \<noteq> None"
  unfolding registryInv_def by blast

lemma getGauge_inv:
  assumes inv: "registryInv E st"
  shows "registryInv E (snd (getGauge E F st))"
proof (cases "gaugeMap st F")
  case (Some g)
  then show ?thesis using assms by (simp add: getGauge_present)
next
  case None
  from getGauge_absent_cases[OF None, of E]
  show ?thesis
  proof
    assume "\<exists>p. getGauge E F st = (Panicked p, st)"
    then show ?thesis using assms by auto
  next
    assume "\<exists>g. getGauge E F st =
                (Returned g, st\<lparr>registered := registered st @ [Name g],
                                gaugeMap := (gaugeMap st)(F \<mapsto> g)\<rparr>)
              \<and> g = NewGaugeVec (''awp_'' @ F) (''AWP sensor value for '' @ F) [''station'']
              \<and> IsValidMetricName (NameValidationScheme E) (''awp_'' @ F)
              \<and> ''awp_'' @ F \<notin> set (registered st)"
    then obtain g where g: "getGauge E F st =
                (Returned g, st\<lparr>registered := registered st @ [Name g],
                                gaugeMap := (gaugeMap st)(F \<mapsto> g)\<rparr>)"
      and n: "Name g = ''awp_'' @ F"
      and v: "IsValidMetricName (NameValidationScheme E) (''awp_'' @ F)"
      and f: "''awp_'' @ F \<notin> set (registered st)"
      by (auto simp: NewGaugeVec_def)
    let ?st = "st\<lparr>registered := registered st @ [Name g], gaugeMap := (gaugeMap st)(F \<mapsto> g)\<rparr>"
    have "registryInv E ?st"
    proof (rule registryInvI)
      show "distinct (registered ?st)"
        using registryInv_distinct[OF inv] n f by simp
    next
      fix k h assume "gaugeMap ?st k = Some h"
      then have c: "(k = F \<and> h = g) \<or> (k \<noteq> F \<and> gaugeMap st k = Some h)"
        by (auto split: if_splits)
      show "Name h = ''awp_'' @ k"
        using c n registryInv_name[OF inv] by blast
      show "''awp_'' @ k \<in> set (registered ?st)"
        using c n registryInv_reg[OF inv] by auto
      show "IsValidMetricName (NameValidationScheme E) (''awp_'' @ k)"
        using c v registryInv_valid[OF inv] by blast
    next
      fix k assume "''awp_'' @ k \<in> set (registered ?st)"
      then have "k = F \<or> ''awp_'' @ k \<in> set (registered st)"
        using n by auto
      then show "gaugeMap ?st k \<noteq> None"
        using registryInv_entry[OF inv] by auto
    qed
    then show ?thesis by (simp add: g)
  qed
qed

lemma Set_inv:
  assumes inv: "registryInv E st" and e: "gaugeMap st k = Some g"
  shows "registryInv E (snd (WithLabelValues_Set k g s f st))"
proof (cases "ValidString s")
  case False
  then show ?thesis using inv by (simp add: WithLabelValues_Set_def)
next
  case True
  let ?g = "g\<lparr>Samples := (Samples g)(s \<mapsto> f)\<rparr>"
  let ?st = "st\<lparr>gaugeMap := (gaugeMap st)(k \<mapsto> ?g)\<rparr>"
  have "registryInv E ?st"
  proof (rule registryInvI)
    show "distinct (registered ?st)"
      using registryInv_distinct[OF inv] by simp
  next
    fix k' h assume "gaugeMap ?st k' = Some h"
    then have c: "(k' = k \<and> h = ?g) \<or> (k' \<noteq> k \<and> gaugeMap st k' = Some h)"
      by (auto split: if_splits)
    show "Name h = ''awp_'' @ k'"
      using c registryInv_name[OF inv] e by auto
    show "''awp_'' @ k' \<in> set (registered ?st)"
      using c registryInv_reg[OF inv] e by auto
    show "IsValidMetricName (NameValidationScheme E) (''awp_'' @ k')"
      using c registryInv_valid[OF inv] e by blast
  next
    fix k' assume "''awp_'' @ k' \<in> set (registered ?st)"
    then show "gaugeMap ?st k' \<noteq> None"
      using registryInv_entry[OF inv] by auto
  qed
  then show ?thesis using True by (simp add: WithLabelValues_Set_def)
qed

lemma Set_panic_state:
  "WithLabelValues_Set k g s f st = (Panicked p, st') \<Longrightarrow> st' = st"
  by (auto simp: WithLabelValues_Set_def split: if_splits)

lemma Set_other_entries:
  "k' \<noteq> k \<Longrightarrow> gaugeMap (snd (WithLabelValues_Set k g s f st)) k' = gaugeMap st k'"
  by (auto simp: WithLabelValues_Set_def)

lemma Set_registered:
  "registered (snd (WithLabelValues_Set k g s f st)) = registered st"
  by (auto simp: WithLabelValues_Set_def)

lemma Set_entry:
  "gaugeMap st k = Some g \<Longrightarrow>
   \<exists>g'. gaugeMap (snd (WithLabelValues_Set k g s f st)) k = Some g' \<and> Name g' = Name g
        \<and> Help g' = Help g \<and> LabelNames g' = LabelNames g"
  by (auto simp: WithLabelValues_Set_def)


lemma grows_refl: "grows st st"
  by (simp add: grows_def)

lemma grows_trans: "grows a b \<Longrightarrow> grows b c \<Longrightarrow> grows a c"
  unfolding grows_def
  apply (intro conjI allI impI)
   apply (metis)
  apply (metis append.assoc)
  done

lemma grows_dom: "grows st st' \<Longrightarrow> dom (gaugeMap st) \<subseteq> dom (gaugeMap st')"
  unfolding grows_def by blast

lemma getGauge_grows: "grows st (snd (getGauge E F st))"
proof (cases "gaugeMap st F")
  case (Some g)
  then show ?thesis by (simp add: getGauge_present grows_refl)
next
  case None
  from getGauge_absent_cases[OF None, of E]
  show ?thesis
  proof
    assume "\<exists>p. getGauge E F st = (Panicked p, st)"
    then show ?thesis by (auto simp: grows_refl)
  next
    assume "\<exists>g. getGauge E F st =
                (Returned g, st\<lparr>registered := registered st @ [Name g],
                                gaugeMap := (gaugeMap st)(F \<mapsto> g)\<rparr>)
              \<and> g = NewGaugeVec (''awp_'' @ F) (''AWP sensor value for '' @ F) [''station'']
              \<and> IsValidMetricName (NameValidationScheme E) (''awp_'' @ F)
              \<and> ''awp_'' @ F \<notin> set (registered st)"
    then obtain g where g: "getGauge E F st =
                (Returned g, st\<lparr>registered := registered st @ [Name g],
                                gaugeMap := (gaugeMap st)(F \<mapsto> g)\<rparr>)"
      by blast
    show ?thesis
      unfolding g grows_def using None by auto
  qed
qed

lemma Set_grows:
  "gaugeMap st k = Some g \<Longrightarrow> grows st (snd (WithLabelValues_Set k g s f st))"
  unfolding grows_def WithLabelValues_Set_def by auto

lemma rangeLoop_inv_grows:
  "registryInv E st \<Longrightarrow>
   registryInv E (snd (rangeLoop E s xs st)) \<and> grows st (snd (rangeLoop E s xs st))"
proof (induction xs arbitrary: st)
  case Nil
  then show ?case by (simp add: grows_refl)
next
  case (Cons x xs)
  obtain k vv where x: "x = (k, vv)" by (cases x)
  show ?case
  proof (cases "ToUpper E k \<in> set ignoredKeys")
    case True
    then show ?thesis using Cons x by simp
  next
    case ign: False
    show ?thesis
    proof (cases vv)
      case Nil
      then show ?thesis using Cons.prems x ign by (simp add: grows_refl)
    next
      case (Cons v0 vs)
      show ?thesis
      proof (cases "ParseFloat E v0")
        case None
        then show ?thesis using Cons.IH Cons.prems x ign Cons by simp
      next
        case (Some f)
        obtain r st1 where g: "getGauge E k st = (r, st1)" by (cases "getGauge E k st")
        have inv1: "registryInv E st1" and gr1: "grows st st1"
          using getGauge_inv[OF Cons.prems, of k] getGauge_grows[of st E k] g by auto
        show ?thesis
        proof (cases r)
          case (Panicked p)
          then show ?thesis using x ign Cons Some g inv1 gr1 by simp
        next
          case (Returned h)
          have e: "gaugeMap st1 k = Some h"
            using getGauge_returned_entry g Returned by blast
          obtain r2 st2 where w: "WithLabelValues_Set k h s f st1 = (r2, st2)"
            by (cases "WithLabelValues_Set k h s f st1")
          have inv2: "registryInv E st2" and gr2: "grows st1 st2"
            using Set_inv[OF inv1 e, of s f] Set_grows[OF e, of s f] w by auto
          show ?thesis
          proof (cases r2)
            case (Panicked p)
            then show ?thesis
              using x ign Cons Some g Returned w inv2 grows_trans[OF gr1 gr2] by simp
          next
            case R2: (Returned u)
            have "registryInv E (snd (rangeLoop E s xs st2)) \<and> grows st2 (snd (rangeLoop E s xs st2))"
              using Cons.IH[OF inv2] .
            then show ?thesis
              using x ign Cons Some g Returned w R2 grows_trans[OF gr1] grows_trans[OF gr2]
              by simp
          qed
        qed
      qed
    qed
  qed
qed

lemma reportHandler_after:
  "after (reportHandler E cfg u st)
     = snd (rangeLoop E (fst (decode u)) (RangeOrder E (fst (snd (decode u)))) st)"
  by (simp add: reportHandler_def split: prod.splits)

lemma reportHandler_outcome:
  "outcome (reportHandler E cfg u st)
     = fst (rangeLoop E (fst (decode u)) (RangeOrder E (fst (snd (decode u)))) st)"
  by (simp add: reportHandler_def split: prod.splits)

lemma exec_inv_grows:
  assumes inv: "registryInv E st"
  shows "registryInv E (exec E cfg x st) \<and> grows st (exec E cfg x st)"
proof (cases x)
  case (GetGauge field)
  then show ?thesis using inv by (simp add: getGauge_inv getGauge_grows)
next
  case (SetSample field station f)
  show ?thesis
  proof (cases "gaugeMap st field")
    case None
    then show ?thesis using inv SetSample by (simp add: grows_refl)
  next
    case (Some g)
    then show ?thesis using inv SetSample by (simp add: Set_inv Set_grows)
  qed
next
  case (Report u)
  then show ?thesis using inv by (simp add: reportHandler_after rangeLoop_inv_grows)
qed

lemma run_inv_grows:
  "registryInv E st \<Longrightarrow> registryInv E (run E cfg ops st) \<and> grows st (run E cfg ops st)"
proof (induction ops arbitrary: st)
  case Nil
  then show ?case by (simp add: run_def grows_refl)
next
  case (Cons x ops)
  have a: "registryInv E (exec E cfg x st)" and b: "grows st (exec E cfg x st)"
    using exec_inv_grows[OF Cons.prems] by auto
  from Cons.IH[OF a] show ?case
    using grows_trans[OF b] by (simp add: run_def)
qed

lemma initState_inv: "registryInv E initState"
  by (simp add: registryInv_def initState_def)

lemma getGauge_registered_other:
  "k \<noteq> F \<Longrightarrow>
   (''awp_'' @ k \<in> set (registered (snd (getGauge E F st)))) = (''awp_'' @ k \<in> set (registered st))"
  using getGauge_registered[of E F st] by auto

lemma rangeLoop_frame:
  assumes "\<forall>(k', vv) \<in> set xs. k' = k \<longrightarrow>
             ToUpper E k \<in> set ignoredKeys \<or> vv = [] \<or> ParseFloat E (hd vv) = None"
  shows "gaugeMap (snd (rangeLoop E s xs st)) k = gaugeMap st k \<and>
         (''awp_'' @ k \<in> set (registered (snd (rangeLoop E s xs st))))
           = (''awp_'' @ k \<in> set (registered st))"
  using assms
proof (induction xs arbitrary: st)
  case Nil
  then show ?case by simp
next
  case (Cons x xs)
  obtain k' vv where x: "x = (k', vv)" by (cases x)
  have rest: "\<forall>(k', vv) \<in> set xs. k' = k \<longrightarrow>
             ToUpper E k \<in> set ignoredKeys \<or> vv = [] \<or> ParseFloat E (hd vv) = None"
    using Cons.prems by auto
  note IH = Cons.IH[OF rest]
  show ?case
  proof (cases "ToUpper E k' \<in> set ignoredKeys")
    case True
    then show ?thesis using IH x by simp
  next
    case ign: False
    show ?thesis
    proof (cases vv)
      case Nil
      then show ?thesis using x ign by simp
    next
      case vv: (Cons v0 vs)
      show ?thesis
      proof (cases "ParseFloat E v0")
        case None
        then show ?thesis using IH x ign vv by simp
      next
        case (Some f)
        have ne: "k' \<noteq> k" using Cons.prems x ign vv Some by auto
        obtain r st1 where g: "getGauge E k' st = (r, st1)" by (cases "getGauge E k' st")
        have m1: "gaugeMap st1 k = gaugeMap st k"
          using getGauge_other_entries[of k k' E st] ne g by simp
        have r1: "(''awp_'' @ k \<in> set (registered st1)) = (''awp_'' @ k \<in> set (registered st))"
          using getGauge_registered_other[of k k' E st] ne g by simp
        show ?thesis
        proof (cases r)
          case (Panicked p)
          then show ?thesis using x ign vv Some g m1 r1 by simp
        next
          case (Returned h)
          obtain r2 st2 where w: "WithLabelValues_Set k' h s f st1 = (r2, st2)"
            by (cases "WithLabelValues_Set k' h s f st1")
          have m2: "gaugeMap st2 k = gaugeMap st1 k"
            using Set_other_entries[of k k' h s f st1] ne w by simp
          have r2: "registered st2 = registered st1"
            using Set_registered[of k' h s f st1] w by simp
          show ?thesis
          proof (cases r2)
            case (Panicked p)
            then show ?thesis using x ign vv Some g Returned w m1 r1 m2 r2 by simp
          next
            case R2: (Returned u)
            show ?thesis using x ign vv Some g Returned w R2 m1 r1 m2 r2 IH[of st2] by simp
          qed
        qed
      qed
    qed
  qed
qed

lemma rangeLoop_append:
  "rangeLoop E s (xs @ ys) st =
     (case rangeLoop E s xs st of
        (Panicked p, st1) \<Rightarrow> (Panicked p, st1)
      | (Returned u, st1) \<Rightarrow> rangeLoop E s ys st1)"
proof (induction xs arbitrary: st)
  case Nil
  then show ?case by simp
next
  case (Cons x xs)
  obtain k vv where x: "x = (k, vv)" by (cases x)
  show ?case
    using Cons.IH
    by (simp add: x split: list.splits option.splits prod.splits result.splits)
qed

lemma rangeLoop_skip_ignored:
  "ToUpper E k \<in> set ignoredKeys \<Longrightarrow>
   rangeLoop E s (xs @ (k, vv) # ys) st = rangeLoop E s (xs @ ys) st"
  by (simp add: rangeLoop_append[of E s xs "(k, vv) # ys"] rangeLoop_append[of E s xs ys]
           split: prod.splits result.splits)

lemma rangeLoop_skip_unparsed:
  "ParseFloat E v0 = None \<Longrightarrow>
   rangeLoop E s (xs @ (k, v0 # vs) # ys) st = rangeLoop E s (xs @ ys) st"
  by (simp add: rangeLoop_append[of E s xs "(k, v0 # vs) # ys"] rangeLoop_append[of E s xs ys]
           split: prod.splits result.splits)

lemma distinct_count_le_1: "distinct xs \<Longrightarrow> count_list xs x \<le> 1"
  by (induction xs) (auto simp: count_list_0_iff)

lemma in_zip_index: "c \<in> set n \<Longrightarrow> \<exists>i. (c, i) \<in> set (zip n [0..<length n])"
proof -
  assume "c \<in> set n"
  then obtain i where "i < length n" "n ! i = c" by (auto simp: in_set_conv_nth)
  then have "(c, i) \<in> set (zip n [0..<length n])"
    by (auto simp: in_set_zip)
  then show ?thesis by blast
qed

lemma legacy_invalid_char:
  assumes "c \<in> set n" and "\<forall>i. \<not> isValidLegacyRune c i"
  shows "\<not> IsValidLegacyMetricName n"
proof -
  obtain i where "(c, i) \<in> set (zip n [0..<length n])"
    using in_zip_index[OF assms(1)] by blast
  then show ?thesis
    using assms(2) by (auto simp: IsValidLegacyMetricName_def list_all_iff)
qed

lemma legacy_hyphen_space:
  "CHR ''-'' \<in> set F \<or> CHR '' '' \<in> set F \<Longrightarrow>
   \<not> IsValidMetricName LegacyValidation (''awp_'' @ F)"
proof -
  assume h: "CHR ''-'' \<in> set F \<or> CHR '' '' \<in> set F"
  have a: "\<forall>i. \<not> isValidLegacyRune CHR ''-'' i" by (simp add: isValidLegacyRune_def)
  have b: "\<forall>i. \<not> isValidLegacyRune CHR '' '' i" by (simp add: isValidLegacyRune_def)
  from h show ?thesis
  proof
    assume "CHR ''-'' \<in> set F"
    then have "CHR ''-'' \<in> set (''awp_'' @ F)" by simp
    from legacy_invalid_char[OF this a] show ?thesis by (simp add: IsValidMetricName_def)
  next
    assume "CHR '' '' \<in> set F"
    then have "CHR '' '' \<in> set (''awp_'' @ F)" by simp
    from legacy_invalid_char[OF this b] show ?thesis by (simp add: IsValidMetricName_def)
  qed
qed

lemma getGauge_invalid:
  assumes "registryInv E st" and "\<not> IsValidMetricName (NameValidationScheme E) (''awp_'' @ F)"
  shows "getGauge E F st = (Panicked (InvalidDescriptor (''awp_'' @ F)), st)"
proof -
  have "gaugeMap st F = None"
    using registryInv_valid[OF assms(1), of F] assms(2) by (cases "gaugeMap st F") auto
  then show ?thesis
    using assms(2) by (simp add: getGauge_def Register_def NewGaugeVec_def Let_def)
qed

lemma getGauge_valid_absent:
  assumes "registryInv E st" and "IsValidMetricName (NameValidationScheme E) (''awp_'' @ F)"
    and "gaugeMap st F = None"
  shows "getGauge E F st =
     (Returned (NewGaugeVec (''awp_'' @ F) (''AWP sensor value for '' @ F) [''station'']),
      st\<lparr>registered := registered st @ [''awp_'' @ F],
         gaugeMap := (gaugeMap st)(F \<mapsto>
            NewGaugeVec (''awp_'' @ F) (''AWP sensor value for '' @ F) [''station''])\<rparr>)"
proof -
  have "''awp_'' @ F \<notin> set (registered st)"
    using registryInv_entry[OF assms(1), of F] assms(3) by blast
  then show ?thesis
    using assms(2,3) by (simp add: getGauge_def Register_def NewGaugeVec_def Let_def)
qed

lemma rangeLoop_no_index_panic:
  assumes "\<forall>(k, vs) \<in> set xs. vs \<noteq> []"
  shows "fst (rangeLoop E s xs st) \<noteq> Panicked IndexOutOfRange"
  using assms
proof (induction xs arbitrary: st)
  case Nil
  then show ?case by simp
next
  case (Cons x xs)
  obtain k vv where x: "x = (k, vv)" by (cases x)
  have ne: "vv \<noteq> []" using Cons.prems x by auto
  have rest: "\<forall>(k, vs) \<in> set xs. vs \<noteq> []" using Cons.prems by auto
  note IH = Cons.IH[OF rest]
  show ?case
    using ne IH x
    by (auto simp: getGauge_def Register_def WithLabelValues_Set_def Let_def
             split: list.splits option.splits prod.splits result.splits if_splits)
qed

section \<open>Lemmas about the handler and the mirror request\<close>

lemma NewGaugeVec_sel:
  "Name (NewGaugeVec n h l) = n" "Help (NewGaugeVec n h l) = h"
  "LabelNames (NewGaugeVec n h l) = l" "Samples (NewGaugeVec n h l) = Map.empty"
  by (simp_all add: NewGaugeVec_def)

lemma mirrorRequest_sent:
  "mirrorHost cfg \<noteq> [] \<Longrightarrow> NewRequestOK E (URL_String (mirrorURL cfg vals)) \<Longrightarrow>
   mirrorRequest E cfg vals station =
     MirrorSent \<lparr>Method = ''GET'', Target = URL_String (mirrorURL cfg vals),
                 Header = [(''User-Agent'', ''awp-exporter-mirror/1.0'')]\<rparr>"
  by (simp add: mirrorRequest_def Let_def)

lemma reportHandler_mirrored:
  "mirrored (reportHandler E cfg u st)
     = mirrorRequest E cfg (fst (snd (decode u))) (fst (decode u))"
  by (simp add: reportHandler_def split: prod.splits)

lemma mirror_target_piece:
  assumes "(k, vs) \<in> set vals" and "v \<in> set vs"
  shows "\<exists>base a b. URL_String (mirrorURL cfg vals)
           = base @ ''?'' @ a @ (QueryEscape k @ ''='' @ QueryEscape v) @ b"
proof -
  obtain a b where e: "Encode vals = a @ (QueryEscape k @ ''='' @ QueryEscape v) @ b"
    using Encode_piece[OF assms] by blast
  have ne: "Encode vals \<noteq> []" using Encode_nonempty[OF assms] .
  obtain base where "URL_String (mirrorURL cfg vals) = base @ ''?'' @ Encode vals"
    using ne by (simp add: URL_String_mirror)
  then have "URL_String (mirrorURL cfg vals)
      = base @ ''?'' @ a @ (QueryEscape k @ ''='' @ QueryEscape v) @ b"
    using e by simp
  then show ?thesis by blast
qed

lemma sampleEnv_sel:
  "ParseFloat (sampleEnv sch) = parseDecimal" "ToUpper (sampleEnv sch) = asciiUpper"
  "NameValidationScheme (sampleEnv sch) = sch" "NewRequestOK (sampleEnv sch) t"
  "RangeOrder (sampleEnv sch) v = v"
  by (simp_all add: sampleEnv_def)

lemma mirrorRequest_station:
  "mirrorRequest E cfg vals station' = mirrorRequest E cfg vals station"
  by (simp add: mirrorRequest_def)

lemma reportHandler_header:
  "wroteHeader (reportHandler E cfg u st) = Some 204 \<and> written (reportHandler E cfg u st) = []"
  by (simp add: reportHandler_def split: prod.splits)

lemma deviceResponse_returned:
  "outcome (reportHandler E cfg u st) = Returned x \<Longrightarrow>
   deviceResponse (reportHandler E cfg u st) = Some (204, [])"
  using reportHandler_header[of E cfg u st] by (simp add: deviceResponse_def)



lemma itoa_8000: "itoa 8000 = ''8000''"
  by (simp add: itoa_def digits.simps char_of_def bit_Suc_0_iff)

lemma itoa_443: "itoa 443 = ''443''"
  by (simp add: itoa_def digits.simps char_of_def bit_Suc_0_iff)

lemma EscapedPath_default:
  assumes "mirrorPath cfg = ''/data/report''"
  shows "EscapedPath (mirrorURL cfg vals) = ''/data/report''"
proof -
  have t: "TrimSuffix ''/data/report'' ''/'' = ''/data/report''" by code_simp
  have e: "escape ''/data/report'' encodePath = ''/data/report''" by code_simp
  show ?thesis using assms by (simp add: EscapedPath_def mirrorURL_sel t e)
qed

lemma URL_String_default:
  assumes "mirrorHost cfg = ''h''" and "mirrorPort cfg = 8000"
    and "mirrorPath cfg = ''/data/report''"
  shows "URL_String (mirrorURL cfg vals) =
           (if mirrorHTTPS cfg then ''https'' else ''http'') @ ''://h:8000/data/report''
           @ (if Encode vals \<noteq> [] then ''?'' @ Encode vals else [])"
proof -
  have h: "escape ''h:8000'' encodeHost = ''h:8000''" by code_simp
  show ?thesis
    using assms by (simp add: URL_String_mirror EscapedPath_default itoa_8000 h)
qed

section \<open>The claims\<close>

text \<open>
  Claim C2. The decoder's rule: when the raw query of the request URL is not empty, it is
  the text that is decoded and the station is the final segment of the path; when it is
  empty, the path is cut at its first \<open>&\<close>, the station is the final segment of the part
  before it and the part after it is decoded as a query string. The final segment of a path
  ending in \<open>/seg\<close> is \<open>seg\<close>. On the request target
  \<^verbatim>\<open>/data/report/STATION&tempf=72.5&humidity=45\<close> this gives the station \<open>STATION\<close> and
  the fields \<open>tempf = 72.5\<close>, \<open>humidity = 45\<close>, without error, exactly what the
  conformant target \<^verbatim>\<open>/data/report/STATION?tempf=72.5&humidity=45\<close> gives.
\<close>

theorem query_decoder_rule:
  "(\<forall>u. RawQuery u \<noteq> [] \<longrightarrow> decode u = (Base (Path u), ParseQuery (RawQuery u)))
   \<and> (\<forall>u p q. RawQuery u = [] \<and> Path u = p @ CHR ''&'' # q \<and> CHR ''&'' \<notin> set p \<longrightarrow>
         decode u = (Base p, ParseQuery q))
   \<and> (\<forall>d seg. seg \<noteq> [] \<and> CHR ''/'' \<notin> set seg \<longrightarrow> Base (d @ CHR ''/'' # seg) = seg)
   \<and> map_sum id decode (requestURL ''/data/report/STATION&tempf=72.5&humidity=45'')
       = Inr (''STATION'', [(''tempf'', [''72.5'']), (''humidity'', [''45''])], None)
   \<and> map_sum id decode (requestURL ''/data/report/STATION?tempf=72.5&humidity=45'')
       = Inr (''STATION'', [(''tempf'', [''72.5'']), (''humidity'', [''45''])], None)"
proof (intro conjI allI impI)
  fix u :: URL assume "RawQuery u \<noteq> []"
  then show "decode u = (Base (Path u), ParseQuery (RawQuery u))"
    by (rule decode_standard)
next
  fix u :: URL and p q
  assume "RawQuery u = [] \<and> Path u = p @ CHR ''&'' # q \<and> CHR ''&'' \<notin> set p"
  then show "decode u = (Base p, ParseQuery q)"
    using decode_ampersand by blast
next
  fix d seg :: string
  assume "seg \<noteq> [] \<and> CHR ''/'' \<notin> set seg"
  then show "Base (d @ CHR ''/'' # seg) = seg"
    using Base_final_segment by blast
next
  show "map_sum id decode (requestURL ''/data/report/STATION&tempf=72.5&humidity=45'')
       = Inr (''STATION'', [(''tempf'', [''72.5'']), (''humidity'', [''45''])], None)"
    by code_simp
next
  show "map_sum id decode (requestURL ''/data/report/STATION?tempf=72.5&humidity=45'')
       = Inr (''STATION'', [(''tempf'', [''72.5'']), (''humidity'', [''45''])], None)"
    by code_simp
qed

theorem query_decoder_rule_witness:
  "RawQuery \<lparr>Scheme = [], Host = [], Path = ''/data/report/STATION'',
             RawQuery = ''tempf=72.5&humidity=45''\<rparr> \<noteq> []
   \<and> decode \<lparr>Scheme = [], Host = [], Path = ''/data/report/STATION'',
              RawQuery = ''tempf=72.5&humidity=45''\<rparr>
       = (Base ''/data/report/STATION'', ParseQuery ''tempf=72.5&humidity=45'')
   \<and> CHR ''&'' \<notin> set ''/data/report/STATION''
   \<and> decode \<lparr>Scheme = [], Host = [], Path = ''/data/report/STATION&tempf=72.5&humidity=45'',
              RawQuery = []\<rparr>
       = (Base ''/data/report/STATION'', ParseQuery ''tempf=72.5&humidity=45'')
   \<and> CHR ''/'' \<notin> set ''STATION''
   \<and> Base ''/data/report/STATION'' = ''STATION''"
proof -
  let ?u1 = "\<lparr>Scheme = [], Host = [], Path = ''/data/report/STATION'',
              RawQuery = ''tempf=72.5&humidity=45''\<rparr>"
  let ?u2 = "\<lparr>Scheme = [], Host = [], Path = ''/data/report/STATION&tempf=72.5&humidity=45'',
              RawQuery = []\<rparr>"
  note r = query_decoder_rule
  have a: "RawQuery ?u1 \<noteq> []" by simp
  have b: "RawQuery ?u2 = [] \<and> Path ?u2 = ''/data/report/STATION'' @ CHR ''&'' # ''tempf=72.5&humidity=45''
            \<and> CHR ''&'' \<notin> set ''/data/report/STATION''" by simp
  have c: "''STATION'' \<noteq> [] \<and> CHR ''/'' \<notin> set ''STATION''" by simp
  have 1: "decode ?u1 = (Base (Path ?u1), ParseQuery (RawQuery ?u1))"
    using r[THEN conjunct1, rule_format, OF a] .
  have 2: "decode ?u2 = (Base ''/data/report/STATION'', ParseQuery ''tempf=72.5&humidity=45'')"
    using r[THEN conjunct2, THEN conjunct1, rule_format, OF b] .
  have 3: "Base (''/data/report'' @ CHR ''/'' # ''STATION'') = ''STATION''"
    using r[THEN conjunct2, THEN conjunct2, THEN conjunct1, rule_format, OF c] .
  show ?thesis using a b c 1 2 3 by simp
qed

text \<open>
  Claim C9. When the request URL has a non-empty raw query and its path contains a \<open>&\<close>,
  the standard branch is taken: the station is the final segment of the whole path, the
  decoded values are those of the raw query alone and do not depend on the path, and when
  the \<open>&\<close> lies in the final segment \<open>a&b\<close> of the path, the station is all of \<open>a&b\<close>:
  the text after the \<open>&\<close> is part of the station and yields no observation.
\<close>

theorem standard_query_precedence:
  assumes "RawQuery u \<noteq> []" and "CHR ''&'' \<in> set (Path u)"
  shows "decode u = (Base (Path u), ParseQuery (RawQuery u))
         \<and> snd (decode u) = snd (decode (u\<lparr>Path := p'\<rparr>))
         \<and> (\<forall>d a b. Path u = d @ CHR ''/'' # a @ CHR ''&'' # b \<and> CHR ''/'' \<notin> set (a @ CHR ''&'' # b)
               \<longrightarrow> fst (decode u) = a @ CHR ''&'' # b)"
proof (intro conjI allI impI)
  show "decode u = (Base (Path u), ParseQuery (RawQuery u))"
    using assms(1) by (rule decode_standard)
  show "snd (decode u) = snd (decode (u\<lparr>Path := p'\<rparr>))"
    using assms(1) by (simp add: decode_def)
next
  fix d a b
  assume h: "Path u = d @ CHR ''/'' # a @ CHR ''&'' # b \<and> CHR ''/'' \<notin> set (a @ CHR ''&'' # b)"
  have "Base (d @ CHR ''/'' # (a @ CHR ''&'' # b)) = a @ CHR ''&'' # b"
    using h by (intro Base_final_segment) auto
  then show "fst (decode u) = a @ CHR ''&'' # b"
    using assms(1) h by (simp add: decode_def)
qed

theorem standard_query_precedence_witness:
  "RawQuery \<lparr>Scheme = [], Host = [], Path = ''/data/report/STATION&tempf=72.5'',
             RawQuery = ''humidity=45''\<rparr> \<noteq> []
   \<and> CHR ''&'' \<in> set ''/data/report/STATION&tempf=72.5''
   \<and> decode \<lparr>Scheme = [], Host = [], Path = ''/data/report/STATION&tempf=72.5'',
              RawQuery = ''humidity=45''\<rparr>
       = (''STATION&tempf=72.5'', [(''humidity'', [''45''])], None)"
proof -
  let ?u = "\<lparr>Scheme = [], Host = [], Path = ''/data/report/STATION&tempf=72.5'',
             RawQuery = ''humidity=45''\<rparr>"
  have a: "RawQuery ?u \<noteq> []" by simp
  have b: "CHR ''&'' \<in> set (Path ?u)" by simp
  have p: "ParseQuery ''humidity=45'' = ([(''humidity'', [''45''])], None)" by code_simp
  have q: "Base ''/data/report/STATION&tempf=72.5'' = ''STATION&tempf=72.5''" by code_simp
  have "decode ?u = (Base (Path ?u), ParseQuery (RawQuery ?u))"
    using standard_query_precedence[OF a b, of "[]"] by blast
  then show ?thesis using a b p q by simp
qed

text \<open>
  Claim C3. The registry invariant holds in the initial state and is kept by every sequence
  of \<open>getGauge\<close> calls, sample updates and handled reports, run from any state that
  satisfies it: no
  collector name is registered twice, so each field has at most one registered collector;
  no entry is ever removed or renamed and the key set of the registry only grows.
  \<open>getGauge\<close> returns the existing handle and changes nothing when the field has an
  entry; when it has none, the call either panics and changes nothing, or adds exactly the
  one entry for that field and registers its name, and it does the latter whenever the
  metric name is valid.
\<close>

theorem registry_invariant:
  "registryInv E initState
   \<and> (registryInv E st \<longrightarrow>
        registryInv E (run E cfg ops st)
        \<and> grows st (run E cfg ops st)
        \<and> dom (gaugeMap st) \<subseteq> dom (gaugeMap (run E cfg ops st))
        \<and> (\<forall>F. count_list (registered (run E cfg ops st)) (''awp_'' @ F) \<le> 1))
   \<and> (\<forall>g. gaugeMap st F = Some g \<longrightarrow> getGauge E F st = (Returned g, st))
   \<and> (gaugeMap st F = None \<longrightarrow>
        (\<exists>p. getGauge E F st = (Panicked p, st))
        \<or> (\<exists>g. getGauge E F st =
                 (Returned g, st\<lparr>registered := registered st @ [Name g],
                                 gaugeMap := (gaugeMap st)(F \<mapsto> g)\<rparr>)))
   \<and> (registryInv E st \<and> gaugeMap st F = None
        \<and> IsValidMetricName (NameValidationScheme E) (''awp_'' @ F) \<longrightarrow>
        (\<exists>g. getGauge E F st =
                 (Returned g, st\<lparr>registered := registered st @ [Name g],
                                 gaugeMap := (gaugeMap st)(F \<mapsto> g)\<rparr>)))"
proof (intro conjI impI allI)
  show "registryInv E initState" by (rule initState_inv)
next
  assume inv: "registryInv E st"
  show "registryInv E (run E cfg ops st)" and g: "grows st (run E cfg ops st)"
    using run_inv_grows[OF inv] by auto
  show "dom (gaugeMap st) \<subseteq> dom (gaugeMap (run E cfg ops st))"
    using g by (rule grows_dom)
next
  fix F'
  assume inv: "registryInv E st"
  have "distinct (registered (run E cfg ops st))"
    using run_inv_grows[OF inv] registryInv_distinct by blast
  then show "count_list (registered (run E cfg ops st)) (''awp_'' @ F') \<le> 1"
    by (rule distinct_count_le_1)
next
  fix g assume "gaugeMap st F = Some g"
  then show "getGauge E F st = (Returned g, st)" by (rule getGauge_present)
next
  assume "gaugeMap st F = None"
  from getGauge_absent_cases[OF this, of E]
  show "(\<exists>p. getGauge E F st = (Panicked p, st))
        \<or> (\<exists>g. getGauge E F st =
                 (Returned g, st\<lparr>registered := registered st @ [Name g],
                                 gaugeMap := (gaugeMap st)(F \<mapsto> g)\<rparr>))"
    by blast
next
  assume h: "registryInv E st \<and> gaugeMap st F = None
        \<and> IsValidMetricName (NameValidationScheme E) (''awp_'' @ F)"
  have "getGauge E F st =
     (Returned (NewGaugeVec (''awp_'' @ F) (''AWP sensor value for '' @ F) [''station'']),
      st\<lparr>registered := registered st @ [''awp_'' @ F],
         gaugeMap := (gaugeMap st)(F \<mapsto>
            NewGaugeVec (''awp_'' @ F) (''AWP sensor value for '' @ F) [''station''])\<rparr>)"
    using getGauge_valid_absent h by blast
  then show "\<exists>g. getGauge E F st =
                 (Returned g, st\<lparr>registered := registered st @ [Name g],
                                 gaugeMap := (gaugeMap st)(F \<mapsto> g)\<rparr>)"
    by (metis GaugeVec.select_convs(1) NewGaugeVec_def)
qed

theorem registry_invariant_witness:
  "registryInv (sampleEnv LegacyValidation) initState
   \<and> registryInv (sampleEnv LegacyValidation)
        (run (sampleEnv LegacyValidation) flagDefaults
           [GetGauge ''tempf'', SetSample ''tempf'' ''ST'' (725, 1),
            Report \<lparr>Scheme = [], Host = [], Path = ''/data/report/ST'', RawQuery = ''tempf=72.5&UV=2''\<rparr>,
            GetGauge ''temp-f'']
           initState)
   \<and> count_list (registered
        (run (sampleEnv LegacyValidation) flagDefaults
           [GetGauge ''tempf'', SetSample ''tempf'' ''ST'' (725, 1),
            Report \<lparr>Scheme = [], Host = [], Path = ''/data/report/ST'', RawQuery = ''tempf=72.5&UV=2''\<rparr>,
            GetGauge ''temp-f'']
           initState)) ''awp_tempf'' \<le> 1
   \<and> gaugeMap (initState :: (int \<times> nat) state) ''tempf'' = None
   \<and> IsValidMetricName LegacyValidation ''awp_tempf''
   \<and> (\<exists>g. getGauge (sampleEnv LegacyValidation) ''tempf'' initState =
             (Returned g, initState\<lparr>registered := registered (initState :: (int \<times> nat) state) @ [Name g],
                                     gaugeMap := (gaugeMap initState)(''tempf'' \<mapsto> g)\<rparr>))
   \<and> gaugeMap (snd (getGauge (sampleEnv LegacyValidation) ''tempf'' initState)) ''tempf''
       = Some (NewGaugeVec ''awp_tempf'' ''AWP sensor value for tempf'' [''station''])
   \<and> getGauge (sampleEnv LegacyValidation) ''tempf''
        (snd (getGauge (sampleEnv LegacyValidation) ''tempf'' initState))
       = (Returned (NewGaugeVec ''awp_tempf'' ''AWP sensor value for tempf'' [''station'']),
          snd (getGauge (sampleEnv LegacyValidation) ''tempf'' initState))"
proof -
  let ?E = "sampleEnv LegacyValidation :: (int \<times> nat) extern"
  let ?ops = "[GetGauge ''tempf'', SetSample ''tempf'' ''ST'' (725, 1),
            Report \<lparr>Scheme = [], Host = [], Path = ''/data/report/ST'', RawQuery = ''tempf=72.5&UV=2''\<rparr>,
            GetGauge ''temp-f'']"
  let ?st1 = "snd (getGauge ?E ''tempf'' initState)"
  let ?g = "NewGaugeVec ''awp_tempf'' ''AWP sensor value for tempf'' [''station''] :: (int \<times> nat) GaugeVec"
  note r0 = registry_invariant[where E = ?E and st = initState and cfg = flagDefaults
                and ops = ?ops and F = "''tempf''"]
  note r1 = registry_invariant[where E = ?E and st = ?st1 and cfg = flagDefaults
                and ops = "[]" and F = "''tempf''"]
  have inv0: "registryInv ?E initState" using r0 by (rule conjunct1)
  have none: "gaugeMap (initState :: (int \<times> nat) state) ''tempf'' = None"
    by (simp add: initState_def)
  have valid: "IsValidMetricName LegacyValidation ''awp_tempf''" by code_simp
  have sch: "NameValidationScheme ?E = LegacyValidation" by (simp add: sampleEnv_def)
  have a: "registryInv ?E (run ?E flagDefaults ?ops initState)
        \<and> count_list (registered (run ?E flagDefaults ?ops initState)) ''awp_tempf'' \<le> 1"
    using r0[THEN conjunct2, THEN conjunct1, rule_format, OF inv0] by simp
  have b: "\<exists>g. getGauge ?E ''tempf'' initState =
             (Returned g, initState\<lparr>registered := registered (initState :: (int \<times> nat) state) @ [Name g],
                                     gaugeMap := (gaugeMap initState)(''tempf'' \<mapsto> g)\<rparr>)"
  proof -
    have "registryInv ?E initState \<and> gaugeMap (initState :: (int \<times> nat) state) ''tempf'' = None
        \<and> IsValidMetricName (NameValidationScheme ?E) (''awp_'' @ ''tempf'')"
      using inv0 none valid sch by simp
    then show ?thesis
      by (rule r0[THEN conjunct2, THEN conjunct2, THEN conjunct2, THEN conjunct2, rule_format])
  qed
  have e: "gaugeMap ?st1 ''tempf'' = Some ?g"
    using valid by (simp add: getGauge_def initState_def Register_def NewGaugeVec_def sampleEnv_def Let_def)
  have c: "getGauge ?E ''tempf'' ?st1 = (Returned ?g, ?st1)"
    using r1[THEN conjunct2, THEN conjunct2, THEN conjunct1, rule_format, OF e] .
  show ?thesis using inv0 a none valid b e c by blast
qed

text \<open>
  Claim C10. In a state that satisfies the registry invariant, \<open>getGauge\<close> on a field
  whose metric name \<open>awp_\<close> + field is not valid for the Prometheus client does not
  return: it panics with the invalid descriptor, and the state, the registry map included,
  is the one before the call. Under the legacy naming scheme this is the case for every
  field that contains a \<open>-\<close> or a space. Every state reached from the initial one by
  \<open>getGauge\<close> calls, sample updates and handled reports is such a state.
\<close>

theorem invalid_metric_name_panics:
  assumes "registryInv E st"
  shows "(\<not> IsValidMetricName (NameValidationScheme E) (''awp_'' @ F) \<longrightarrow>
            getGauge E F st = (Panicked (InvalidDescriptor (''awp_'' @ F)), st))
         \<and> (NameValidationScheme E = LegacyValidation
             \<and> (CHR ''-'' \<in> set F \<or> CHR '' '' \<in> set F) \<longrightarrow>
            getGauge E F st = (Panicked (InvalidDescriptor (''awp_'' @ F)), st))
         \<and> (\<not> IsValidMetricName (NameValidationScheme E) (''awp_'' @ F) \<longrightarrow>
            getGauge E F (run E cfg ops initState)
              = (Panicked (InvalidDescriptor (''awp_'' @ F)), run E cfg ops initState))"
proof (intro conjI impI)
  assume "\<not> IsValidMetricName (NameValidationScheme E) (''awp_'' @ F)"
  then show "getGauge E F st = (Panicked (InvalidDescriptor (''awp_'' @ F)), st)"
    using getGauge_invalid[OF assms] by blast
next
  assume h: "NameValidationScheme E = LegacyValidation
             \<and> (CHR ''-'' \<in> set F \<or> CHR '' '' \<in> set F)"
  then have "\<not> IsValidMetricName (NameValidationScheme E) (''awp_'' @ F)"
    using legacy_hyphen_space[of F] by simp
  then show "getGauge E F st = (Panicked (InvalidDescriptor (''awp_'' @ F)), st)"
    using getGauge_invalid[OF assms] by blast
next
  assume n: "\<not> IsValidMetricName (NameValidationScheme E) (''awp_'' @ F)"
  have "registryInv E (run E cfg ops initState)"
    using run_inv_grows[OF initState_inv] by blast
  then show "getGauge E F (run E cfg ops initState)
              = (Panicked (InvalidDescriptor (''awp_'' @ F)), run E cfg ops initState)"
    using n by (rule getGauge_invalid)
qed

theorem invalid_metric_name_panics_witness:
  "registryInv (sampleEnv LegacyValidation) initState
   \<and> \<not> IsValidMetricName LegacyValidation ''awp_temp-f''
   \<and> getGauge (sampleEnv LegacyValidation) ''temp-f'' initState
       = (Panicked (InvalidDescriptor ''awp_temp-f''), initState)
   \<and> registryInv (sampleEnv UTF8Validation) initState
   \<and> \<not> IsValidMetricName UTF8Validation (''awp_'' @ [CHR 0xFF])
   \<and> getGauge (sampleEnv UTF8Validation) [CHR 0xFF] initState
       = (Panicked (InvalidDescriptor (''awp_'' @ [CHR 0xFF])), initState)"
proof -
  let ?L = "sampleEnv LegacyValidation :: (int \<times> nat) extern"
  let ?U = "sampleEnv UTF8Validation :: (int \<times> nat) extern"
  have i1: "registryInv ?L initState" by (rule initState_inv)
  have i2: "registryInv ?U initState" by (rule initState_inv)
  have n1: "\<not> IsValidMetricName (NameValidationScheme ?L) (''awp_'' @ ''temp-f'')"
    unfolding sampleEnv_def by code_simp
  have n2: "\<not> IsValidMetricName (NameValidationScheme ?U) (''awp_'' @ [CHR 0xFF])"
    unfolding sampleEnv_def by code_simp
  have p1: "getGauge ?L ''temp-f'' initState
       = (Panicked (InvalidDescriptor (''awp_'' @ ''temp-f'')), initState)"
    using invalid_metric_name_panics[OF i1, of "''temp-f''", THEN conjunct1, rule_format, OF n1] .
  have p2: "getGauge ?U [CHR 0xFF] initState
       = (Panicked (InvalidDescriptor (''awp_'' @ [CHR 0xFF])), initState)"
    using invalid_metric_name_panics[OF i2, of "[CHR 0xFF]", THEN conjunct1, rule_format, OF n2] .
  show ?thesis using i1 i2 n1 n2 p1 p2 by (simp add: sampleEnv_def)
qed

text \<open>
  Claim C7. For a field name \<open>F\<close> whose upper-cased form is one of the ignored keys,
  handling any report, from any state, leaves the registry entry of \<open>F\<close> as it was (none
  is created, none is updated) and registers no collector for it; in the loop the pair is
  passed over, whatever comes before and after it. The mirror request is built from the
  whole decoded set: when mirroring is enabled and the request can be created, every value
  of \<open>F\<close> appears in the query string of the outbound target as \<open>F=value\<close>, escaped.
\<close>

theorem ignored_field_not_registered_but_mirrored:
  assumes "ToUpper E F \<in> set ignoredKeys"
  shows "gaugeMap (after (reportHandler E cfg u st)) F = gaugeMap st F
         \<and> (''awp_'' @ F \<in> set (registered (after (reportHandler E cfg u st))))
              = (''awp_'' @ F \<in> set (registered st))
         \<and> rangeLoop E s (xs @ (F, vv) # ys) st = rangeLoop E s (xs @ ys) st
         \<and> mirrored (reportHandler E cfg u st)
              = mirrorRequest E cfg (fst (snd (decode u))) (fst (decode u))
         \<and> (mirrorHost cfg \<noteq> []
              \<and> NewRequestOK E (URL_String (mirrorURL cfg (fst (snd (decode u)))))
              \<and> (F, vs) \<in> set (fst (snd (decode u))) \<and> v \<in> set vs \<longrightarrow>
             (\<exists>base a b.
                mirrored (reportHandler E cfg u st) =
                  MirrorSent \<lparr>Method = ''GET'',
                              Target = base @ ''?'' @ a @ (QueryEscape F @ ''='' @ QueryEscape v) @ b,
                              Header = [(''User-Agent'', ''awp-exporter-mirror/1.0'')]\<rparr>))"
proof (intro conjI impI)
  have fr: "\<forall>(k', vv) \<in> set (RangeOrder E (fst (snd (decode u)))). k' = F \<longrightarrow>
             ToUpper E F \<in> set ignoredKeys \<or> vv = [] \<or> ParseFloat E (hd vv) = None"
    using assms by auto
  note f = rangeLoop_frame[OF fr, of "fst (decode u)" st]
  show "gaugeMap (after (reportHandler E cfg u st)) F = gaugeMap st F"
    using f by (simp add: reportHandler_after)
  show "(''awp_'' @ F \<in> set (registered (after (reportHandler E cfg u st))))
              = (''awp_'' @ F \<in> set (registered st))"
    using f by (simp add: reportHandler_after)
  show "rangeLoop E s (xs @ (F, vv) # ys) st = rangeLoop E s (xs @ ys) st"
    using assms by (rule rangeLoop_skip_ignored)
  show "mirrored (reportHandler E cfg u st)
              = mirrorRequest E cfg (fst (snd (decode u))) (fst (decode u))"
    by (rule reportHandler_mirrored)
next
  let ?vals = "fst (snd (decode u))"
  assume h: "mirrorHost cfg \<noteq> [] \<and> NewRequestOK E (URL_String (mirrorURL cfg ?vals))
              \<and> (F, vs) \<in> set ?vals \<and> v \<in> set vs"
  obtain base a b where t: "URL_String (mirrorURL cfg ?vals)
           = base @ ''?'' @ a @ (QueryEscape F @ ''='' @ QueryEscape v) @ b"
    using mirror_target_piece[of F vs ?vals v cfg] h by blast
  have "mirrored (reportHandler E cfg u st) =
     MirrorSent \<lparr>Method = ''GET'', Target = URL_String (mirrorURL cfg ?vals),
                 Header = [(''User-Agent'', ''awp-exporter-mirror/1.0'')]\<rparr>"
    using h by (simp add: reportHandler_mirrored mirrorRequest_sent)
  then show "\<exists>base a b.
                mirrored (reportHandler E cfg u st) =
                  MirrorSent \<lparr>Method = ''GET'',
                              Target = base @ ''?'' @ a @ (QueryEscape F @ ''='' @ QueryEscape v) @ b,
                              Header = [(''User-Agent'', ''awp-exporter-mirror/1.0'')]\<rparr>"
    using t by auto
qed

theorem ignored_field_not_registered_but_mirrored_witness:
  "ToUpper (sampleEnv LegacyValidation :: (int \<times> nat) extern) ''passkey'' \<in> set ignoredKeys
   \<and> gaugeMap (after (reportHandler (sampleEnv LegacyValidation)
         (flagDefaults\<lparr>mirrorHost := ''h''\<rparr>)
         \<lparr>Scheme = [], Host = [], Path = ''/data/report/ST'', RawQuery = ''passkey=abc&tempf=72.5''\<rparr>
         (initState :: (int \<times> nat) state))) ''passkey'' = None
   \<and> ''awp_passkey'' \<notin> set (registered (after (reportHandler (sampleEnv LegacyValidation)
         (flagDefaults\<lparr>mirrorHost := ''h''\<rparr>)
         \<lparr>Scheme = [], Host = [], Path = ''/data/report/ST'', RawQuery = ''passkey=abc&tempf=72.5''\<rparr>
         (initState :: (int \<times> nat) state))))
   \<and> (\<exists>base a b. mirrored (reportHandler (sampleEnv LegacyValidation)
         (flagDefaults\<lparr>mirrorHost := ''h''\<rparr>)
         \<lparr>Scheme = [], Host = [], Path = ''/data/report/ST'', RawQuery = ''passkey=abc&tempf=72.5''\<rparr>
         (initState :: (int \<times> nat) state))
        = MirrorSent \<lparr>Method = ''GET'',
                      Target = base @ ''?'' @ a @ (QueryEscape ''passkey'' @ ''='' @ QueryEscape ''abc'') @ b,
                      Header = [(''User-Agent'', ''awp-exporter-mirror/1.0'')]\<rparr>)"
proof -
  let ?E = "sampleEnv LegacyValidation :: (int \<times> nat) extern"
  let ?cfg = "flagDefaults\<lparr>mirrorHost := ''h''\<rparr>"
  let ?u = "\<lparr>Scheme = [], Host = [], Path = ''/data/report/ST'', RawQuery = ''passkey=abc&tempf=72.5''\<rparr>"
  let ?st = "initState :: (int \<times> nat) state"
  have up: "asciiUpper ''passkey'' = ''PASSKEY''" by code_simp
  have h: "ToUpper ?E ''passkey'' \<in> set ignoredKeys"
    by (simp add: sampleEnv_sel up ignoredKeys_def)
  have d: "decode ?u = (''ST'', [(''passkey'', [''abc'']), (''tempf'', [''72.5''])], None)"
    by code_simp
  note t = ignored_field_not_registered_but_mirrored[OF h, where cfg = ?cfg and u = ?u and st = ?st
              and s = "''ST''" and xs = "[]" and vv = "[''abc'']" and ys = "[(''tempf'', [''72.5''])]"
              and vs = "[''abc'']" and v = "''abc''"]
  have m: "mirrorHost ?cfg \<noteq> []
              \<and> NewRequestOK ?E (URL_String (mirrorURL ?cfg (fst (snd (decode ?u)))))
              \<and> (''passkey'', [''abc'']) \<in> set (fst (snd (decode ?u))) \<and> ''abc'' \<in> set [''abc'']"
    by (simp add: d sampleEnv_sel flagDefaults_def)
  have 1: "gaugeMap (after (reportHandler ?E ?cfg ?u ?st)) ''passkey'' = None"
    using t[THEN conjunct1] by (simp add: initState_def)
  have 2: "''awp_passkey'' \<notin> set (registered (after (reportHandler ?E ?cfg ?u ?st)))"
    using t[THEN conjunct2, THEN conjunct1] by (simp add: initState_def)
  have 3: "\<exists>base a b. mirrored (reportHandler ?E ?cfg ?u ?st)
        = MirrorSent \<lparr>Method = ''GET'',
                      Target = base @ ''?'' @ a @ (QueryEscape ''passkey'' @ ''='' @ QueryEscape ''abc'') @ b,
                      Header = [(''User-Agent'', ''awp-exporter-mirror/1.0'')]\<rparr>"
    using t[THEN conjunct2, THEN conjunct2, THEN conjunct2, THEN conjunct2, rule_format, OF m] .
  show ?thesis using h 1 2 3 by blast
qed

text \<open>
  Claim C8. A pair whose (first) value does not parse as a number is passed over by the
  loop: processing the entries with the pair gives the same outcome and the same registry
  as processing them without it, so its siblings are handled as if it were absent and the
  pair itself never aborts the request. No entry is created or changed under its key, and
  no collector is registered for it, when no other entry has its key. The same holds for
  the handler, whose outcome and final state are those of the loop without the pair; there
  the decoded keys are distinct, so whatever order the entries are visited in, the registry
  entry and the registration of the key are as before the request.
\<close>

theorem unparsable_value_skipped:
  assumes "ParseFloat E v0 = None"
  shows "rangeLoop E s (xs @ (k, v0 # vs) # ys) st = rangeLoop E s (xs @ ys) st
         \<and> (k \<notin> fst ` set (xs @ ys) \<longrightarrow>
              gaugeMap (snd (rangeLoop E s (xs @ (k, v0 # vs) # ys) st)) k = gaugeMap st k
              \<and> (''awp_'' @ k \<in> set (registered (snd (rangeLoop E s (xs @ (k, v0 # vs) # ys) st))))
                  = (''awp_'' @ k \<in> set (registered st)))
         \<and> (fst (decode u) = s \<and> RangeOrder E (fst (snd (decode u))) = xs @ (k, v0 # vs) # ys \<longrightarrow>
              outcome (reportHandler E cfg u st) = fst (rangeLoop E s (xs @ ys) st)
              \<and> after (reportHandler E cfg u st) = snd (rangeLoop E s (xs @ ys) st))
         \<and> (fst (decode u) = s \<and> RangeOrder E (fst (snd (decode u))) = xs @ (k, v0 # vs) # ys
              \<and> set (RangeOrder E (fst (snd (decode u)))) = set (fst (snd (decode u)))
              \<and> length (RangeOrder E (fst (snd (decode u)))) = length (fst (snd (decode u))) \<longrightarrow>
              gaugeMap (after (reportHandler E cfg u st)) k = gaugeMap st k
              \<and> (''awp_'' @ k \<in> set (registered (after (reportHandler E cfg u st))))
                  = (''awp_'' @ k \<in> set (registered st)))"
proof (intro conjI impI)
  show eq: "rangeLoop E s (xs @ (k, v0 # vs) # ys) st = rangeLoop E s (xs @ ys) st"
    using assms by (rule rangeLoop_skip_unparsed)
  {
    assume nk: "k \<notin> fst ` set (xs @ ys)"
    have fr: "\<forall>(k', vv) \<in> set (xs @ ys). k' = k \<longrightarrow>
             ToUpper E k \<in> set ignoredKeys \<or> vv = [] \<or> ParseFloat E (hd vv) = None"
      using nk by force
    note f = rangeLoop_frame[OF fr, of s st]
    show "gaugeMap (snd (rangeLoop E s (xs @ (k, v0 # vs) # ys) st)) k = gaugeMap st k"
      using f eq by simp
    show "(''awp_'' @ k \<in> set (registered (snd (rangeLoop E s (xs @ (k, v0 # vs) # ys) st))))
                  = (''awp_'' @ k \<in> set (registered st))"
      using f eq by simp
  }
  {
    assume h: "fst (decode u) = s \<and> RangeOrder E (fst (snd (decode u))) = xs @ (k, v0 # vs) # ys"
    show "outcome (reportHandler E cfg u st) = fst (rangeLoop E s (xs @ ys) st)"
      using h eq by (simp add: reportHandler_outcome)
    show "after (reportHandler E cfg u st) = snd (rangeLoop E s (xs @ ys) st)"
      using h eq by (simp add: reportHandler_after)
  }
  {
    let ?vals = "fst (snd (decode u))"
    assume h: "fst (decode u) = s \<and> RangeOrder E ?vals = xs @ (k, v0 # vs) # ys
              \<and> set (RangeOrder E ?vals) = set ?vals
              \<and> length (RangeOrder E ?vals) = length ?vals"
    have "distinct (map fst ?vals)"
      using decode_wellformed[of u] by (simp add: wellformed_def)
    moreover have "set (RangeOrder E ?vals) = set ?vals"
      and "length (RangeOrder E ?vals) = length ?vals"
      using h by blast+
    ultimately have "distinct (map fst (RangeOrder E ?vals))"
      by (rule reordered_keys_distinct)
    moreover have "RangeOrder E ?vals = xs @ (k, v0 # vs) # ys"
      using h by blast
    ultimately have "distinct (map fst (xs @ (k, v0 # vs) # ys))"
      by simp
    then have nk: "k \<notin> fst ` set (xs @ ys)"
      by auto
    have fr: "\<forall>(k', vv) \<in> set (xs @ ys). k' = k \<longrightarrow>
             ToUpper E k \<in> set ignoredKeys \<or> vv = [] \<or> ParseFloat E (hd vv) = None"
      using nk by force
    note f = rangeLoop_frame[OF fr, of s st]
    have a: "after (reportHandler E cfg u st) = snd (rangeLoop E s (xs @ ys) st)"
      using h eq by (simp add: reportHandler_after)
    show "gaugeMap (after (reportHandler E cfg u st)) k = gaugeMap st k"
      using f a by simp
    show "(''awp_'' @ k \<in> set (registered (after (reportHandler E cfg u st))))
                  = (''awp_'' @ k \<in> set (registered st))"
      using f a by simp
  }
qed

theorem unparsable_value_skipped_witness:
  "ParseFloat (sampleEnv LegacyValidation) ''N/A'' = None
   \<and> rangeLoop (sampleEnv LegacyValidation) ''ST''
        ([(''tempf'', [''72.5''])] @ (''windspeedmph'', ''N/A'' # []) # [(''humidity'', [''45''])])
        initState
      = rangeLoop (sampleEnv LegacyValidation) ''ST''
        ([(''tempf'', [''72.5''])] @ [(''humidity'', [''45''])]) initState
   \<and> outcome (reportHandler (sampleEnv LegacyValidation) flagDefaults
        \<lparr>Scheme = [], Host = [], Path = ''/data/report/ST'',
         RawQuery = ''tempf=72.5&windspeedmph=N/A&humidity=45''\<rparr> initState) = Returned ()
   \<and> gaugeMap (after (reportHandler (sampleEnv LegacyValidation) flagDefaults
        \<lparr>Scheme = [], Host = [], Path = ''/data/report/ST'',
         RawQuery = ''tempf=72.5&windspeedmph=N/A&humidity=45''\<rparr> initState)) ''windspeedmph'' = None
   \<and> map_option (\<lambda>g. Samples g ''ST'')
        (gaugeMap (after (reportHandler (sampleEnv LegacyValidation) flagDefaults
          \<lparr>Scheme = [], Host = [], Path = ''/data/report/ST'',
           RawQuery = ''tempf=72.5&windspeedmph=N/A&humidity=45''\<rparr> initState)) ''tempf'')
       = Some (Some (725, 1))
   \<and> map_option (\<lambda>g. Samples g ''ST'')
        (gaugeMap (after (reportHandler (sampleEnv LegacyValidation) flagDefaults
          \<lparr>Scheme = [], Host = [], Path = ''/data/report/ST'',
           RawQuery = ''tempf=72.5&windspeedmph=N/A&humidity=45''\<rparr> initState)) ''humidity'')
       = Some (Some (45, 0))"
proof -
  let ?E = "sampleEnv LegacyValidation :: (int \<times> nat) extern"
  let ?u = "\<lparr>Scheme = [], Host = [], Path = ''/data/report/ST'',
         RawQuery = ''tempf=72.5&windspeedmph=N/A&humidity=45''\<rparr>"
  let ?st = "initState :: (int \<times> nat) state"
  let ?xs = "[(''tempf'', [''72.5''])]"
  let ?ys = "[(''humidity'', [''45''])]"
  have h: "ParseFloat ?E ''N/A'' = None"
    unfolding sampleEnv_sel by code_simp
  have d: "decode ?u = (''ST'', [(''tempf'', [''72.5'']), (''windspeedmph'', [''N/A'']),
                               (''humidity'', [''45''])], None)"
    by code_simp
  note t = unparsable_value_skipped[OF h, where s = "''ST''" and xs = ?xs and k = "''windspeedmph''"
              and vs = "[]" and ys = ?ys and st = ?st and u = ?u and cfg = flagDefaults]
  have p1: "parseDecimal ''72.5'' = Some (725, 1)" by code_simp
  have p2: "parseDecimal ''45'' = Some (45, 0)" by code_simp
  have u1: "asciiUpper ''tempf'' = ''TEMPF''" by code_simp
  have u2: "asciiUpper ''humidity'' = ''HUMIDITY''" by code_simp
  have v1: "IsValidMetricName LegacyValidation ''awp_tempf''" by code_simp
  have v2: "IsValidMetricName LegacyValidation ''awp_humidity''" by code_simp
  have vs: "ValidString ''ST''" by code_simp
  have loop: "rangeLoop ?E ''ST'' (?xs @ ?ys) ?st
     = (Returned (),
        \<lparr>gaugeMap = [''tempf'' \<mapsto> (NewGaugeVec ''awp_tempf'' ''AWP sensor value for tempf'' [''station''])
                                   \<lparr>Samples := [''ST'' \<mapsto> (725, 1)]\<rparr>,
                     ''humidity'' \<mapsto> (NewGaugeVec ''awp_humidity'' ''AWP sensor value for humidity'' [''station''])
                                   \<lparr>Samples := [''ST'' \<mapsto> (45, 0)]\<rparr>],
         registered = [''awp_tempf'', ''awp_humidity'']\<rparr>)"
    using v1 v2 vs
    by (simp add: sampleEnv_sel p1 p2 u1 u2 ignoredKeys_def getGauge_def Register_def Let_def
          initState_def WithLabelValues_Set_def NewGaugeVec_sel)
  have c: "fst (decode ?u) = ''ST'' \<and>
           RangeOrder ?E (fst (snd (decode ?u))) = ?xs @ (''windspeedmph'', ''N/A'' # []) # ?ys"
    by (simp add: d sampleEnv_sel)
  have 1: "rangeLoop ?E ''ST'' (?xs @ (''windspeedmph'', ''N/A'' # []) # ?ys) ?st
      = rangeLoop ?E ''ST'' (?xs @ ?ys) ?st"
    using t[THEN conjunct1] .
  have 2: "outcome (reportHandler ?E flagDefaults ?u ?st) = fst (rangeLoop ?E ''ST'' (?xs @ ?ys) ?st)
         \<and> after (reportHandler ?E flagDefaults ?u ?st) = snd (rangeLoop ?E ''ST'' (?xs @ ?ys) ?st)"
    using t[THEN conjunct2, THEN conjunct2, THEN conjunct1, rule_format, OF c] .
  have o: "outcome (reportHandler ?E flagDefaults ?u ?st) = Returned ()"
    using 2 loop by simp
  have a: "after (reportHandler ?E flagDefaults ?u ?st) = snd (rangeLoop ?E ''ST'' (?xs @ ?ys) ?st)"
    using 2 by simp
  have w: "gaugeMap (after (reportHandler ?E flagDefaults ?u ?st)) ''windspeedmph'' = None"
    unfolding a loop by simp
  have s1: "map_option (\<lambda>g. Samples g ''ST'')
        (gaugeMap (after (reportHandler ?E flagDefaults ?u ?st)) ''tempf'') = Some (Some (725, 1))"
    unfolding a loop by simp
  have s2: "map_option (\<lambda>g. Samples g ''ST'')
        (gaugeMap (after (reportHandler ?E flagDefaults ?u ?st)) ''humidity'') = Some (Some (45, 0))"
    unfolding a loop by simp
  show ?thesis using h 1 o w s1 s2 by simp
qed

text \<open>
  Claim C6, as stated, fails: the metric name is not lower-cased. For the field \<open>UV\<close>
  the new collector is named \<open>awp_UV\<close>, not \<open>awp_uv\<close>.
\<close>

theorem metric_name_case_counterexample:
  "fst (getGauge (sampleEnv LegacyValidation) ''UV'' initState)
     = Returned (NewGaugeVec ''awp_UV'' ''AWP sensor value for UV'' [''station''])
   \<and> Name (NewGaugeVec ''awp_UV'' ''AWP sensor value for UV'' [''station''] :: (int \<times> nat) GaugeVec)
       \<noteq> specMetricName ''UV''
   \<and> specMetricName ''UV'' = ''awp_uv''"
proof -
  have v: "IsValidMetricName LegacyValidation ''awp_UV''" by code_simp
  have l: "specMetricName ''UV'' = ''awp_uv''" by code_simp
  have "fst (getGauge (sampleEnv LegacyValidation) ''UV'' initState)
     = Returned (NewGaugeVec ''awp_UV'' ''AWP sensor value for UV'' [''station''])"
    using v by (simp add: getGauge_def initState_def Register_def sampleEnv_def Let_def
                          NewGaugeVec_sel)
  then show ?thesis using l by (simp add: NewGaugeVec_sel)
qed

text \<open>
  Claim C6, amended. When \<open>getGauge\<close> constructs a new gauge collection for a field, the
  metric is named \<open>awp_\<close> followed by the field name exactly as received, its help
  string is \<open>AWP sensor value for\<close> followed by the field name, its only label is
  \<open>station\<close>, it has no sample yet and it is stored under the field name. The name is
  the lower-cased one exactly when the field name has no upper-case ASCII letter.
\<close>

theorem metric_name_as_received:
  assumes "gaugeMap st F = None" and "getGauge E F st = (Returned g, st')"
  shows "Name g = ''awp_'' @ F \<and> Help g = ''AWP sensor value for '' @ F
         \<and> LabelNames g = [''station''] \<and> Samples g = Map.empty
         \<and> gaugeMap st' F = Some g
         \<and> (Name g = specMetricName F \<longleftrightarrow> asciiLower F = F)"
  using assms
  by (auto simp: getGauge_def Register_def NewGaugeVec_def Let_def specMetricName_def
           split: if_splits)

theorem metric_name_as_received_witness:
  "gaugeMap (initState :: (int \<times> nat) state) ''UV'' = None
   \<and> getGauge (sampleEnv LegacyValidation) ''UV'' initState
       = (Returned (NewGaugeVec ''awp_UV'' ''AWP sensor value for UV'' [''station'']),
          \<lparr>gaugeMap = [''UV'' \<mapsto> NewGaugeVec ''awp_UV'' ''AWP sensor value for UV'' [''station'']],
           registered = [''awp_UV'']\<rparr>)
   \<and> Name (NewGaugeVec ''awp_UV'' ''AWP sensor value for UV'' [''station''] :: (int \<times> nat) GaugeVec)
       = ''awp_'' @ ''UV''
   \<and> Help (NewGaugeVec ''awp_UV'' ''AWP sensor value for UV'' [''station''] :: (int \<times> nat) GaugeVec)
       = ''AWP sensor value for '' @ ''UV''"
proof -
  let ?E = "sampleEnv LegacyValidation :: (int \<times> nat) extern"
  let ?g = "NewGaugeVec ''awp_UV'' ''AWP sensor value for UV'' [''station''] :: (int \<times> nat) GaugeVec"
  let ?st = "\<lparr>gaugeMap = [''UV'' \<mapsto> ?g], registered = [''awp_UV'']\<rparr>"
  have v: "IsValidMetricName LegacyValidation ''awp_UV''" by code_simp
  have a: "gaugeMap (initState :: (int \<times> nat) state) ''UV'' = None"
    by (simp add: initState_def)
  have b: "getGauge ?E ''UV'' initState = (Returned ?g, ?st)"
    using v by (simp add: getGauge_def initState_def Register_def sampleEnv_def Let_def NewGaugeVec_def)
  from metric_name_as_received[OF a b]
  show ?thesis using a b by simp
qed

text \<open>
  Claim C1, as stated, fails: the station identifier is not part of the mirror target.
  For sink host \<open>h\<close>, port 8000, path \<^verbatim>\<open>/data/report\<close>, HTTPS disabled and the
  report \<^verbatim>\<open>/data/report/TEST_STATION?tempf=72.5&humidity=45&PASSKEY=abc\<close>, the
  outbound target is \<^verbatim>\<open>http://h:8000/data/report?PASSKEY=abc&humidity=45&tempf=72.5\<close>.
\<close>

theorem mirror_target_counterexample:
  "fst (decode \<lparr>Scheme = [], Host = [], Path = ''/data/report/TEST_STATION'',
               RawQuery = ''tempf=72.5&humidity=45&PASSKEY=abc''\<rparr>) = ''TEST_STATION''
   \<and> mirrored (reportHandler (sampleEnv LegacyValidation) (flagDefaults\<lparr>mirrorHost := ''h''\<rparr>)
        \<lparr>Scheme = [], Host = [], Path = ''/data/report/TEST_STATION'',
         RawQuery = ''tempf=72.5&humidity=45&PASSKEY=abc''\<rparr> initState)
      = MirrorSent \<lparr>Method = ''GET'',
                    Target = ''http://h:8000/data/report?PASSKEY=abc&humidity=45&tempf=72.5'',
                    Header = [(''User-Agent'', ''awp-exporter-mirror/1.0'')]\<rparr>
   \<and> mirrored (reportHandler (sampleEnv LegacyValidation) (flagDefaults\<lparr>mirrorHost := ''h''\<rparr>)
        \<lparr>Scheme = [], Host = [], Path = ''/data/report/TEST_STATION'',
         RawQuery = ''tempf=72.5&humidity=45&PASSKEY=abc''\<rparr> initState)
      \<noteq> MirrorSent \<lparr>Method = ''GET'',
                    Target = ''http://h:8000/data/report/TEST_STATION?PASSKEY=abc&humidity=45&tempf=72.5'',
                    Header = [(''User-Agent'', ''awp-exporter-mirror/1.0'')]\<rparr>"
proof -
  let ?u = "\<lparr>Scheme = [], Host = [], Path = ''/data/report/TEST_STATION'',
               RawQuery = ''tempf=72.5&humidity=45&PASSKEY=abc''\<rparr>"
  let ?vals = "[(''tempf'', [''72.5'']), (''humidity'', [''45'']), (''PASSKEY'', [''abc''])]"
  have d: "decode ?u = (''TEST_STATION'', ?vals, None)"
    by code_simp
  have e: "Encode ?vals = ''PASSKEY=abc&humidity=45&tempf=72.5''" by code_simp
  have t: "URL_String (mirrorURL (flagDefaults\<lparr>mirrorHost := ''h''\<rparr>) ?vals)
      = ''http://h:8000/data/report?PASSKEY=abc&humidity=45&tempf=72.5''"
    by (simp add: URL_String_default flagDefaults_def e)
  have m: "mirrored (reportHandler (sampleEnv LegacyValidation) (flagDefaults\<lparr>mirrorHost := ''h''\<rparr>)
              ?u initState)
      = MirrorSent \<lparr>Method = ''GET'',
                    Target = ''http://h:8000/data/report?PASSKEY=abc&humidity=45&tempf=72.5'',
                    Header = [(''User-Agent'', ''awp-exporter-mirror/1.0'')]\<rparr>"
    unfolding reportHandler_mirrored d
    by (simp add: mirrorRequest_def t sampleEnv_sel)
  show ?thesis unfolding m using d by simp
qed

text \<open>
  Claim C1, amended. When a sink host is configured and the outbound request can be
  created, the request is a \<open>GET\<close> whose target is the scheme, \<open>://\<close>, the escaped
  \<open>host:port\<close> (the configured port when HTTPS is disabled), the escaped sink path with
  one trailing slash removed and, when there are values, \<open>?\<close> and the values re-encoded
  with sorted keys; its only header set is \<open>User-Agent: awp-exporter-mirror/1.0\<close>. The
  station identifier does not influence the request, and every decoded pair occurs in the
  encoded query as \<open>key=value\<close>, escaped.
\<close>

theorem mirror_target:
  assumes "mirrorHost cfg \<noteq> []" and "NewRequestOK E (URL_String (mirrorURL cfg vals))"
  shows "(\<exists>port. (\<not> mirrorHTTPS cfg \<longrightarrow> port = mirrorPort cfg) \<and>
            mirrorRequest E cfg vals station =
              MirrorSent
                \<lparr>Method = ''GET'',
                 Target = (if mirrorHTTPS cfg then ''https'' else ''http'') @ ''://''
                          @ escape (mirrorHost cfg @ '':'' @ itoa port) encodeHost
                          @ (if EscapedPath (mirrorURL cfg vals) \<noteq> []
                                \<and> take 1 (EscapedPath (mirrorURL cfg vals)) \<noteq> ''/''
                             then ''/'' else [])
                          @ EscapedPath (mirrorURL cfg vals)
                          @ (if Encode vals \<noteq> [] then ''?'' @ Encode vals else []),
                 Header = [(''User-Agent'', ''awp-exporter-mirror/1.0'')]\<rparr>)
         \<and> Path (mirrorURL cfg vals) = TrimSuffix (mirrorPath cfg) ''/''
         \<and> mirrorRequest E cfg vals station' = mirrorRequest E cfg vals station
         \<and> (\<forall>k vs v. (k, vs) \<in> set vals \<and> v \<in> set vs \<longrightarrow>
               (\<exists>a b. Encode vals = a @ (QueryEscape k @ ''='' @ QueryEscape v) @ b))"
proof (intro conjI allI impI)
  let ?port = "if mirrorHTTPS cfg \<and> mirrorPort cfg = 80 then 443 else mirrorPort cfg"
  have "mirrorRequest E cfg vals station =
              MirrorSent
                \<lparr>Method = ''GET'',
                 Target = (if mirrorHTTPS cfg then ''https'' else ''http'') @ ''://''
                          @ escape (mirrorHost cfg @ '':'' @ itoa ?port) encodeHost
                          @ (if EscapedPath (mirrorURL cfg vals) \<noteq> []
                                \<and> take 1 (EscapedPath (mirrorURL cfg vals)) \<noteq> ''/''
                             then ''/'' else [])
                          @ EscapedPath (mirrorURL cfg vals)
                          @ (if Encode vals \<noteq> [] then ''?'' @ Encode vals else []),
                 Header = [(''User-Agent'', ''awp-exporter-mirror/1.0'')]\<rparr>"
    using assms
    by (simp add: mirrorRequest_sent URL_String_mirror)
  moreover have "\<not> mirrorHTTPS cfg \<longrightarrow> ?port = mirrorPort cfg" by simp
  ultimately show "\<exists>port. (\<not> mirrorHTTPS cfg \<longrightarrow> port = mirrorPort cfg) \<and>
            mirrorRequest E cfg vals station =
              MirrorSent
                \<lparr>Method = ''GET'',
                 Target = (if mirrorHTTPS cfg then ''https'' else ''http'') @ ''://''
                          @ escape (mirrorHost cfg @ '':'' @ itoa port) encodeHost
                          @ (if EscapedPath (mirrorURL cfg vals) \<noteq> []
                                \<and> take 1 (EscapedPath (mirrorURL cfg vals)) \<noteq> ''/''
                             then ''/'' else [])
                          @ EscapedPath (mirrorURL cfg vals)
                          @ (if Encode vals \<noteq> [] then ''?'' @ Encode vals else []),
                 Header = [(''User-Agent'', ''awp-exporter-mirror/1.0'')]\<rparr>"
    by blast
next
  show "Path (mirrorURL cfg vals) = TrimSuffix (mirrorPath cfg) ''/''"
    by (rule mirrorURL_sel)
  show "mirrorRequest E cfg vals station' = mirrorRequest E cfg vals station"
    by (rule mirrorRequest_station)
next
  fix k vs v
  assume "(k, vs) \<in> set vals \<and> v \<in> set vs"
  then show "\<exists>a b. Encode vals = a @ (QueryEscape k @ ''='' @ QueryEscape v) @ b"
    using Encode_piece by blast
qed

theorem mirror_target_witness:
  "mirrorHost (flagDefaults\<lparr>mirrorHost := ''h''\<rparr>) \<noteq> []
   \<and> NewRequestOK (sampleEnv LegacyValidation)
        (URL_String (mirrorURL (flagDefaults\<lparr>mirrorHost := ''h''\<rparr>)
           [(''tempf'', [''72.5'']), (''humidity'', [''45'']), (''PASSKEY'', [''abc''])]))
   \<and> mirrorRequest (sampleEnv LegacyValidation) (flagDefaults\<lparr>mirrorHost := ''h''\<rparr>)
        [(''tempf'', [''72.5'']), (''humidity'', [''45'']), (''PASSKEY'', [''abc''])] ''TEST_STATION''
      = MirrorSent \<lparr>Method = ''GET'',
                    Target = ''http://h:8000/data/report?PASSKEY=abc&humidity=45&tempf=72.5'',
                    Header = [(''User-Agent'', ''awp-exporter-mirror/1.0'')]\<rparr>"
proof -
  let ?E = "sampleEnv LegacyValidation"
  let ?cfg = "flagDefaults\<lparr>mirrorHost := ''h''\<rparr>"
  let ?vals = "[(''tempf'', [''72.5'']), (''humidity'', [''45'']), (''PASSKEY'', [''abc''])]"
  have a: "mirrorHost ?cfg \<noteq> []" by (simp add: flagDefaults_def)
  have b: "NewRequestOK ?E (URL_String (mirrorURL ?cfg ?vals))" by (simp add: sampleEnv_sel)
  have nh: "\<not> mirrorHTTPS ?cfg" and pt: "mirrorPort ?cfg = 8000" by (simp_all add: flagDefaults_def)
  have e: "Encode ?vals = ''PASSKEY=abc&humidity=45&tempf=72.5''" by code_simp
  have p: "EscapedPath (mirrorURL ?cfg ?vals) = ''/data/report''"
    by (simp add: EscapedPath_default flagDefaults_def)
  have hst: "escape ''h:8000'' encodeHost = ''h:8000''" by code_simp
  obtain port where q: "\<not> mirrorHTTPS ?cfg \<longrightarrow> port = mirrorPort ?cfg"
    and r: "mirrorRequest ?E ?cfg ?vals ''TEST_STATION'' =
              MirrorSent
                \<lparr>Method = ''GET'',
                 Target = (if mirrorHTTPS ?cfg then ''https'' else ''http'') @ ''://''
                          @ escape (mirrorHost ?cfg @ '':'' @ itoa port) encodeHost
                          @ (if EscapedPath (mirrorURL ?cfg ?vals) \<noteq> []
                                \<and> take 1 (EscapedPath (mirrorURL ?cfg ?vals)) \<noteq> ''/''
                             then ''/'' else [])
                          @ EscapedPath (mirrorURL ?cfg ?vals)
                          @ (if Encode ?vals \<noteq> [] then ''?'' @ Encode ?vals else []),
                 Header = [(''User-Agent'', ''awp-exporter-mirror/1.0'')]\<rparr>"
    using mirror_target[OF a b, where station = "''TEST_STATION''" and station' = "''TEST_STATION''",
                        THEN conjunct1]
    by blast
  have "port = 8000" using q nh pt by simp
  then have "mirrorRequest ?E ?cfg ?vals ''TEST_STATION''
      = MirrorSent \<lparr>Method = ''GET'',
                    Target = ''http://h:8000/data/report?PASSKEY=abc&humidity=45&tempf=72.5'',
                    Header = [(''User-Agent'', ''awp-exporter-mirror/1.0'')]\<rparr>"
    using r nh by (simp add: e p hst itoa_8000)
  then show ?thesis using a b by (intro conjI) assumption+
qed

text \<open>
  Claim C5. With the mirror port left at its flag default 8000 and HTTPS selected, the
  outbound request goes to port 8000: the port is replaced by 443 only when it is 80.
\<close>

theorem https_keeps_default_port:
  "mirrorPort flagDefaults = 8000
   \<and> mirrorRequest (sampleEnv LegacyValidation)
        (flagDefaults\<lparr>mirrorHost := ''h'', mirrorHTTPS := True\<rparr>) [(''tempf'', [''72.5''])] ''ST''
      = MirrorSent \<lparr>Method = ''GET'', Target = ''https://h:8000/data/report?tempf=72.5'',
                    Header = [(''User-Agent'', ''awp-exporter-mirror/1.0'')]\<rparr>
   \<and> Host (mirrorURL (flagDefaults\<lparr>mirrorHost := ''h'', mirrorHTTPS := True\<rparr>) [(''tempf'', [''72.5''])])
      = ''h:8000''
   \<and> Host (mirrorURL (flagDefaults\<lparr>mirrorHost := ''h'', mirrorHTTPS := True, mirrorPort := 80\<rparr>)
             [(''tempf'', [''72.5''])])
      = ''h:443''"
proof -
  let ?cfg = "flagDefaults\<lparr>mirrorHost := ''h'', mirrorHTTPS := True\<rparr>"
  have e: "Encode [(''tempf'', [''72.5''])] = ''tempf=72.5''" by code_simp
  have t: "URL_String (mirrorURL ?cfg [(''tempf'', [''72.5''])]) = ''https://h:8000/data/report?tempf=72.5''"
    by (simp add: URL_String_default flagDefaults_def e)
  have h1: "Host (mirrorURL ?cfg [(''tempf'', [''72.5''])]) = ''h:8000''"
    by (simp add: mirrorURL_sel flagDefaults_def itoa_8000)
  have h2: "Host (mirrorURL (flagDefaults\<lparr>mirrorHost := ''h'', mirrorHTTPS := True, mirrorPort := 80\<rparr>)
             [(''tempf'', [''72.5''])]) = ''h:443''"
    by (simp add: mirrorURL_sel flagDefaults_def itoa_443)
  have m: "mirrorRequest (sampleEnv LegacyValidation) ?cfg [(''tempf'', [''72.5''])] ''ST''
      = MirrorSent \<lparr>Method = ''GET'', Target = ''https://h:8000/data/report?tempf=72.5'',
                    Header = [(''User-Agent'', ''awp-exporter-mirror/1.0'')]\<rparr>"
    by (simp add: mirrorRequest_def t sampleEnv_sel)
  have dp: "mirrorPort flagDefaults = 8000" by (simp add: flagDefaults_def)
  show ?thesis using dp m h1 h2 by (intro conjI) assumption+
qed

text \<open>
  Claim C4. The handler records status 204 first, but a report whose field name gives an
  invalid metric name (the byte \<open>0xFF\<close>, invalid under both naming schemes) makes
  \<open>getGauge\<close> panic inside the handler, and a report whose station is not valid UTF-8
  makes \<^verbatim>\<open>WithLabelValues\<close> panic: the handler does not return and the device receives
  no response.
\<close>

theorem panic_drops_acknowledgement:
  "requestURL ''/data/report/ST?%FF=1''
     = Inr \<lparr>Scheme = [], Host = [], Path = ''/data/report/ST'', RawQuery = ''%FF=1''\<rparr>
   \<and> wroteHeader (reportHandler (sampleEnv LegacyValidation) flagDefaults
        \<lparr>Scheme = [], Host = [], Path = ''/data/report/ST'', RawQuery = ''%FF=1''\<rparr> initState)
      = Some 204
   \<and> outcome (reportHandler (sampleEnv LegacyValidation) flagDefaults
        \<lparr>Scheme = [], Host = [], Path = ''/data/report/ST'', RawQuery = ''%FF=1''\<rparr> initState)
      = Panicked (InvalidDescriptor (''awp_'' @ [CHR 0xFF]))
   \<and> deviceResponse (reportHandler (sampleEnv LegacyValidation) flagDefaults
        \<lparr>Scheme = [], Host = [], Path = ''/data/report/ST'', RawQuery = ''%FF=1''\<rparr> initState)
      = None
   \<and> deviceResponse (reportHandler (sampleEnv UTF8Validation) flagDefaults
        \<lparr>Scheme = [], Host = [], Path = ''/data/report/ST'', RawQuery = ''%FF=1''\<rparr> initState)
      = None
   \<and> requestURL ''/data/report/%FF?tempf=1''
     = Inr \<lparr>Scheme = [], Host = [], Path = ''/data/report/'' @ [CHR 0xFF], RawQuery = ''tempf=1''\<rparr>
   \<and> outcome (reportHandler (sampleEnv UTF8Validation) flagDefaults
        \<lparr>Scheme = [], Host = [], Path = ''/data/report/'' @ [CHR 0xFF], RawQuery = ''tempf=1''\<rparr>
        initState)
      = Panicked (InvalidLabelValue [CHR 0xFF])
   \<and> deviceResponse (reportHandler (sampleEnv UTF8Validation) flagDefaults
        \<lparr>Scheme = [], Host = [], Path = ''/data/report/'' @ [CHR 0xFF], RawQuery = ''tempf=1''\<rparr>
        initState)
      = None"
proof -
  let ?u1 = "\<lparr>Scheme = [], Host = [], Path = ''/data/report/ST'', RawQuery = ''%FF=1''\<rparr>"
  let ?u2 = "\<lparr>Scheme = [], Host = [], Path = ''/data/report/'' @ [CHR 0xFF], RawQuery = ''tempf=1''\<rparr>"
  have r1: "requestURL ''/data/report/ST?%FF=1'' = Inr ?u1" by code_simp
  have r2: "requestURL ''/data/report/%FF?tempf=1'' = Inr ?u2" by code_simp
  have d1: "decode ?u1 = (''ST'', [([CHR 0xFF], [''1''])], None)" by code_simp
  have d2: "decode ?u2 = ([CHR 0xFF], [(''tempf'', [''1''])], None)" by code_simp
  have p: "parseDecimal ''1'' = Some (1, 0)" by code_simp
  have up1: "asciiUpper [CHR 0xFF] = [CHR 0xFF]" by code_simp
  have up2: "asciiUpper ''tempf'' = ''TEMPF''" by code_simp
  have n1: "\<not> IsValidMetricName LegacyValidation (''awp_'' @ [CHR 0xFF])" by code_simp
  have n2: "\<not> IsValidMetricName UTF8Validation (''awp_'' @ [CHR 0xFF])" by code_simp
  have v: "IsValidMetricName UTF8Validation ''awp_tempf''" by code_simp
  have nv: "\<not> ValidString [CHR 0xFF]" by code_simp
  have o1: "outcome (reportHandler (sampleEnv LegacyValidation) flagDefaults ?u1 initState)
      = Panicked (InvalidDescriptor (''awp_'' @ [CHR 0xFF]))"
    unfolding reportHandler_outcome d1 using n1
    by (simp add: sampleEnv_sel p up1 ignoredKeys_def getGauge_def
          Register_def Let_def initState_def NewGaugeVec_sel)
  have o2: "outcome (reportHandler (sampleEnv UTF8Validation) flagDefaults ?u1 initState)
      = Panicked (InvalidDescriptor (''awp_'' @ [CHR 0xFF]))"
    unfolding reportHandler_outcome d1 using n2
    by (simp add: sampleEnv_sel p up1 ignoredKeys_def getGauge_def
          Register_def Let_def initState_def NewGaugeVec_sel)
  have o3: "outcome (reportHandler (sampleEnv UTF8Validation) flagDefaults ?u2 initState)
      = Panicked (InvalidLabelValue [CHR 0xFF])"
    unfolding reportHandler_outcome d2 using v nv
    by (simp add: sampleEnv_sel p up2 ignoredKeys_def getGauge_def
          Register_def Let_def initState_def NewGaugeVec_sel WithLabelValues_Set_def)
  have h: "wroteHeader (reportHandler (sampleEnv LegacyValidation) flagDefaults ?u1 initState)
      = Some 204"
    using reportHandler_header by blast
  have e1: "deviceResponse (reportHandler (sampleEnv LegacyValidation) flagDefaults ?u1 initState) = None"
    unfolding deviceResponse_def o1 by simp
  have e2: "deviceResponse (reportHandler (sampleEnv UTF8Validation) flagDefaults ?u1 initState) = None"
    unfolding deviceResponse_def o2 by simp
  have e3: "deviceResponse (reportHandler (sampleEnv UTF8Validation) flagDefaults ?u2 initState) = None"
    unfolding deviceResponse_def o3 by simp
  show ?thesis
    using r1 h o1 e1 e2 r2 o3 e3 by (intro conjI) assumption+
qed

end
